theory Spec2Isabelle
  imports Main "HOL-Library.Word"
begin

unbundle bit_operations_syntax

section \<open>The radio driver (radio.c) as a shallow embedding\<close>

text \<open>
  The driver programs a sub-GHz transceiver over SPI. Its public functions are
  \<open>RADIO_Init\<close>, \<open>RADIO_Process\<close>, \<open>RADIO_SetFrame\<close> and \<open>RADIO_GetState\<close>;
  the static helpers are \<open>Transmit10\<close>, \<open>SetReg\<close>, \<open>GetReg\<close> and \<open>DumpRegister\<close>.
  Every C function becomes a HOL function that takes the radio instance and the
  hardware it talks to (the \<open>world\<close> below) and returns them updated. A pointer that
  may be null is an \<open>option\<close>. The \<open>LOG\<close> macro only prints and is left out.
\<close>

subsection \<open>Constants\<close>

text \<open>
  The \<open>#define\<close>s of radio.c that the code uses, as abbreviations (macros expand in
  place).
\<close>

abbreviation (input) MAX_ADDR :: "8 word" where "MAX_ADDR \<equiv> 0x50"

abbreviation (input) SPI_READ :: "8 word" where "SPI_READ \<equiv> 0"
abbreviation (input) SPI_WRITE :: "8 word" where "SPI_WRITE \<equiv> push_bit 7 1"

abbreviation (input) ADDR_PWRMODE :: "8 word" where "ADDR_PWRMODE \<equiv> 0x02"
abbreviation (input) ADDR_XTALOSC :: "8 word" where "ADDR_XTALOSC \<equiv> 0x03"
abbreviation (input) ADDR_FIFOCTRL :: "8 word" where "ADDR_FIFOCTRL \<equiv> 0x04"
abbreviation (input) ADDR_FIFODATA :: "8 word" where "ADDR_FIFODATA \<equiv> 0x05"
abbreviation (input) ADDR_MODULATION :: "8 word" where "ADDR_MODULATION \<equiv> 0x10"
abbreviation (input) ADDR_ENCODING :: "8 word" where "ADDR_ENCODING \<equiv> 0x11"
abbreviation (input) ADDR_FRAMING :: "8 word" where "ADDR_FRAMING \<equiv> 0x12"
abbreviation (input) ADDR_FREQ3 :: "8 word" where "ADDR_FREQ3 \<equiv> 0x20"
abbreviation (input) ADDR_FREQ2 :: "8 word" where "ADDR_FREQ2 \<equiv> 0x21"
abbreviation (input) ADDR_FREQ1 :: "8 word" where "ADDR_FREQ1 \<equiv> 0x22"
abbreviation (input) ADDR_FREQ0 :: "8 word" where "ADDR_FREQ0 \<equiv> 0x23"
abbreviation (input) ADDR_FSKDEV2 :: "8 word" where "ADDR_FSKDEV2 \<equiv> 0x25"
abbreviation (input) ADDR_FSKDEV1 :: "8 word" where "ADDR_FSKDEV1 \<equiv> 0x26"
abbreviation (input) ADDR_FSKDEV0 :: "8 word" where "ADDR_FSKDEV0 \<equiv> 0x27"
abbreviation (input) ADDR_PLLLOOP :: "8 word" where "ADDR_PLLLOOP \<equiv> 0x2C"
abbreviation (input) ADDR_PLLRANGING :: "8 word" where "ADDR_PLLRANGING \<equiv> 0x2D"
abbreviation (input) ADDR_TXPWR :: "8 word" where "ADDR_TXPWR \<equiv> 0x30"
abbreviation (input) ADDR_TXRATEHI :: "8 word" where "ADDR_TXRATEHI \<equiv> 0x31"
abbreviation (input) ADDR_TXRATEMID :: "8 word" where "ADDR_TXRATEMID \<equiv> 0x32"
abbreviation (input) ADDR_TXRATELO :: "8 word" where "ADDR_TXRATELO \<equiv> 0x33"

abbreviation (input) CONF_XTALOSC :: "8 word" where "CONF_XTALOSC \<equiv> 0x18"
abbreviation (input) CONF_MODULATION :: "8 word" where "CONF_MODULATION \<equiv> 0x06"
abbreviation (input) CONF_ENCODING :: "8 word" where "CONF_ENCODING \<equiv> 0x00"
abbreviation (input) CONF_FRAMING :: "8 word" where "CONF_FRAMING \<equiv> 0x00"
abbreviation (input) CONF_FREQ3 :: "8 word" where "CONF_FREQ3 \<equiv> 0x19"
abbreviation (input) CONF_FREQ2 :: "8 word" where "CONF_FREQ2 \<equiv> 0x60"
abbreviation (input) CONF_FREQ1 :: "8 word" where "CONF_FREQ1 \<equiv> 0xC8"
abbreviation (input) CONF_FREQ0 :: "8 word" where "CONF_FREQ0 \<equiv> 0xB5"
abbreviation (input) CONF_TXPWR :: "8 word" where "CONF_TXPWR \<equiv> 0x0f"
abbreviation (input) CONF_TXRATEHI :: "8 word" where "CONF_TXRATEHI \<equiv> 0x01"
abbreviation (input) CONF_TXRATEMID :: "8 word" where "CONF_TXRATEMID \<equiv> 0x99"
abbreviation (input) CONF_TXRATELO :: "8 word" where "CONF_TXRATELO \<equiv> 0x9a"
abbreviation (input) CONF_PLLRANGING :: "8 word" where "CONF_PLLRANGING \<equiv> 0x18"
abbreviation (input) CONF_PLLLOOP :: "8 word" where "CONF_PLLLOOP \<equiv> 0x29"
abbreviation (input) CONF_FSKDEV2 :: "8 word" where "CONF_FSKDEV2 \<equiv> 0x00"
abbreviation (input) CONF_FSKDEV1 :: "8 word" where "CONF_FSKDEV1 \<equiv> 0x00"
abbreviation (input) CONF_FSKDEV0 :: "8 word" where "CONF_FSKDEV0 \<equiv> 0x00"

abbreviation (input) MASK_PLLRANGING_START :: "8 word" where "MASK_PLLRANGING_START \<equiv> 0x10"
abbreviation (input) MASK_PLLRANGING_ERROR :: "8 word" where "MASK_PLLRANGING_ERROR \<equiv> 0x20"

abbreviation (input) STATE_S3_FIFO_FULL :: "8 word" where "STATE_S3_FIFO_FULL \<equiv> push_bit 3 1"

abbreviation (input) PWRMODE_STANDBY :: "8 word" where "PWRMODE_STANDBY \<equiv> 0x05"
abbreviation (input) PWRMODE_SYNTHTX :: "8 word" where "PWRMODE_SYNTHTX \<equiv> 0x0C"
abbreviation (input) PWRMODE_FULLTX :: "8 word" where "PWRMODE_FULLTX \<equiv> 0x0D"

abbreviation (input) IQ_1 :: "16 word" where "IQ_1 \<equiv> 0x369"
abbreviation (input) IQ_0 :: "16 word" where "IQ_0 \<equiv> 0x097"

abbreviation (input) PREAMBLE_MSG :: "8 word" where "PREAMBLE_MSG \<equiv> 0x55"

abbreviation (input) CONFIGURATION_DELAY :: "32 word" where "CONFIGURATION_DELAY \<equiv> 5"
abbreviation (input) STARTUP_DELAY :: "32 word" where "STARTUP_DELAY \<equiv> 1"
abbreviation (input) PREAMBLE_DURATION :: "32 word" where "PREAMBLE_DURATION \<equiv> 160"
abbreviation (input) AR_INTERVAL :: "32 word" where "AR_INTERVAL \<equiv> 5 * 60 * 1000"

subsection \<open>Data\<close>

text \<open>
  Modelled from the spec: the enumeration \<open>RADIO_State\<close> of radio.h, which is not
  among the sources. The constructors are the nine enumerators that radio.c names and
  the spec's state table lists. Neither radio.c nor the spec gives their integer values
  or the order of their declaration, so the datatype carries none.
\<close>

datatype RADIO_State =
    RADIO_STATE_CONFIGURE
  | RADIO_STATE_WAIT_CONF
  | RADIO_STATE_IDLE
  | RADIO_STATE_START_TX
  | RADIO_STATE_WAIT_TX
  | RADIO_STATE_WAIT_AR
  | RADIO_STATE_PREAMBLE
  | RADIO_STATE_FRAME
  | RADIO_STATE_POSTAMBLE

text \<open>
  Modelled from the spec: \<open>struct RADIO_Instance\<close> of radio.h, which is not among the
  sources. The fields are the ones radio.c uses. \<open>idx\<close> and \<open>nextAR\<close> hold values of
  \<open>HAL_GetTick\<close> and are 32 bits wide; \<open>len\<close> has the width of the \<open>len\<close> parameter of
  \<open>RADIO_SetFrame\<close>; \<open>frame\<close> is the byte array of \<open>RADIO_FRAME_LENGTH\<close> elements.
  \<open>spi\<close> is the bus handle, a pointer in C, here the identity of the bus.
\<close>

type_synonym SPI_Init_Struct = nat

record RADIO_Instance =
  spi :: SPI_Init_Struct
  state :: RADIO_State
  frame :: "8 word list"
  len :: "16 word"
  idx :: "32 word"
  nextAR :: "32 word"

text \<open>
  The hardware outside the driver: the millisecond tick, and the SPI bus with the
  transceiver behind it. The transceiver is not modelled; \<open>miso w k\<close> is the byte it
  clocks out during the \<open>k\<close>-th byte transfer, so that a statement for every \<open>miso\<close>
  holds for every device. \<open>nx\<close> counts the transfers made, \<open>bus\<close> records every bus
  operation in the order made.
\<close>

datatype spi_event =
    CS_Enable SPI_Init_Struct
  | WriteRead SPI_Init_Struct "8 word" "8 word"
  | CS_Disable SPI_Init_Struct

record world =
  tick :: "32 word"
  miso :: "nat \<Rightarrow> 8 word"
  nx :: nat
  bus :: "spi_event list"

subsection \<open>External services\<close>

text \<open>
  Modelled from the spec: \<open>HAL_GetTick\<close>, the millisecond clock (not among the
  sources). One call of a driver function reads one value of the clock, the spec's
  \<open>now\<close>; the clock moves between calls.
\<close>

definition HAL_GetTick :: "world \<Rightarrow> 32 word" where
  "HAL_GetTick w = tick w"

text \<open>
  Modelled from the spec: \<open>SPI_CS_Enable\<close>, \<open>SPI_CS_Disable\<close> and \<open>SPI_WriteRead\<close>
  of the SPI driver (not among the sources). A transfer is synchronous and always
  completes: it sends one byte and stores the byte received.
\<close>

definition SPI_CS_Enable :: "SPI_Init_Struct \<Rightarrow> world \<Rightarrow> world" where
  "SPI_CS_Enable h w = w\<lparr>bus := bus w @ [CS_Enable h]\<rparr>"

definition SPI_CS_Disable :: "SPI_Init_Struct \<Rightarrow> world \<Rightarrow> world" where
  "SPI_CS_Disable h w = w\<lparr>bus := bus w @ [CS_Disable h]\<rparr>"

definition SPI_WriteRead :: "SPI_Init_Struct \<Rightarrow> 8 word \<Rightarrow> world \<Rightarrow> 8 word \<times> world" where
  "SPI_WriteRead h tx w =
     (miso w (nx w),
      w\<lparr>nx := Suc (nx w), bus := bus w @ [WriteRead h tx (miso w (nx w))]\<rparr>)"

text \<open>
  \<open>memcpy\<close>: the first \<open>n\<close> bytes of the destination are replaced by the first \<open>n\<close>
  bytes of the source. The C call is defined only when the source holds \<open>n\<close> bytes.
\<close>

definition memcpy :: "8 word list \<Rightarrow> 8 word list \<Rightarrow> nat \<Rightarrow> 8 word list" where
  "memcpy dst src n = take n src @ drop n dst"

subsection \<open>Register access\<close>

definition SetReg :: "RADIO_Instance \<Rightarrow> 8 word \<Rightarrow> 8 word \<Rightarrow> world \<Rightarrow> 8 word \<times> world" where
  "SetReg inst addr data w =
     (let w1 = SPI_CS_Enable (spi inst) w;
          addr' = SPI_WRITE OR (addr AND 0x7F);
          (status, w2) = SPI_WriteRead (spi inst) addr' w1;
          (tmp, w3) = SPI_WriteRead (spi inst) data w2;
          w4 = SPI_CS_Disable (spi inst) w3
      in (status, w4))"

text \<open>\<open>GetReg\<close> returns the status, the byte stored through \<open>data\<close>, and the world.\<close>

definition GetReg :: "RADIO_Instance \<Rightarrow> 8 word \<Rightarrow> world \<Rightarrow> 8 word \<times> 8 word \<times> world" where
  "GetReg inst addr w =
     (let w1 = SPI_CS_Enable (spi inst) w;
          addr' = SPI_READ OR (addr AND 0x7F);
          (status, w2) = SPI_WriteRead (spi inst) addr' w1;
          (data, w3) = SPI_WriteRead (spi inst) 0xff w2;
          w4 = SPI_CS_Disable (spi inst) w3
      in (status, data, w4))"

text \<open>\<open>DumpRegister\<close>: the loop \<open>for (uint8_t i = 0; i <= MAX_ADDR; i++)\<close>.\<close>

function DumpRegister_loop :: "RADIO_Instance \<Rightarrow> 8 word \<Rightarrow> world \<Rightarrow> world" where
  "DumpRegister_loop inst i w =
     (if i \<le> MAX_ADDR
      then (case GetReg inst i w of (status, reg, w1) \<Rightarrow> DumpRegister_loop inst (i + 1) w1)
      else w)"
  by pat_completeness auto
termination
proof (relation "measure (\<lambda>(inst, i, w). 0x51 - unat i)")
  show "wf (measure (\<lambda>(inst :: RADIO_Instance, i :: 8 word, w :: world). 0x51 - unat i))"
    by simp
next
  fix inst :: RADIO_Instance and i :: "8 word" and w :: world
    and x :: "8 word \<times> 8 word \<times> world" and status :: "8 word"
    and y :: "8 word \<times> world" and reg :: "8 word" and w1 :: world
  assume le: "i \<le> MAX_ADDR"
  then have "unat i \<le> 0x50"
    by (simp add: word_le_nat_alt)
  moreover from this have "unat (i + 1) = Suc (unat i)"
    by (simp add: unat_word_ariths)
  ultimately show "((inst, i + 1, w1), (inst, i, w)) \<in> measure (\<lambda>(inst, i, w). 0x51 - unat i)"
    by simp
qed

declare DumpRegister_loop.simps [simp del]

definition DumpRegister :: "RADIO_Instance \<Rightarrow> world \<Rightarrow> world" where
  "DumpRegister inst w = DumpRegister_loop inst 0 w"

subsection \<open>The symbol encoder\<close>

definition Transmit10 :: "RADIO_Instance \<Rightarrow> 8 word \<Rightarrow> world \<Rightarrow> 8 word \<times> world" where
  "Transmit10 inst data w =
     (let tx = (if data = 0 then IQ_0 else IQ_1);
          (ret, w1) = SetReg inst ADDR_FIFOCTRL (ucast (drop_bit 8 tx)) w;
          w2 = (if ret AND STATE_S3_FIFO_FULL = 0
                then snd (SetReg inst ADDR_FIFODATA (ucast (tx AND 0xFF)) w1)
                else w1)
      in (if ret AND STATE_S3_FIFO_FULL = 0 then 1 else 0, w2))"

subsection \<open>The state machine\<close>

definition RADIO_Init :: "RADIO_Instance option \<Rightarrow> SPI_Init_Struct option \<Rightarrow> RADIO_Instance option" where
  "RADIO_Init inst spi_h =
     (case (inst, spi_h) of
        (Some i, Some s) \<Rightarrow>
          Some (i\<lparr>spi := s, idx := 0, len := 0, state := RADIO_STATE_CONFIGURE\<rparr>)
      | _ \<Rightarrow> inst)"

text \<open>
  The loop of the FRAME case:
  \<open>while (inst->idx < inst->len && Transmit10(inst, inst->frame[inst->idx])) inst->idx++;\<close>
  The read \<open>frame[idx]\<close> is inside the array when \<open>len\<close> does not exceed its size, which
  \<open>RADIO_SetFrame\<close> guarantees; the theorems that depend on the byte read assume it.
\<close>

function FRAME_loop :: "RADIO_Instance \<Rightarrow> world \<Rightarrow> RADIO_Instance \<times> world" where
  "FRAME_loop inst w =
     (if idx inst < ucast (len inst)
      then (case Transmit10 inst (frame inst ! unat (idx inst)) w of
              (r, w1) \<Rightarrow>
                if r \<noteq> 0 then FRAME_loop (inst\<lparr>idx := idx inst + 1\<rparr>) w1 else (inst, w1))
      else (inst, w))"
  by pat_completeness auto
termination
proof (relation "measure (\<lambda>(inst, w). unat (ucast (len inst) :: 32 word) - unat (idx inst))")
  show "wf (measure (\<lambda>(inst :: RADIO_Instance, w :: world).
          unat (ucast (len inst) :: 32 word) - unat (idx inst)))"
    by simp
next
  fix inst :: RADIO_Instance and w :: world and x :: "8 word \<times> world"
    and r :: "8 word" and w1 :: world
  assume lt: "idx inst < ucast (len inst)"
  then have below: "Suc (unat (idx inst)) \<le> unat (ucast (len inst) :: 32 word)"
    by (simp add: word_less_nat_alt)
  also have "unat (ucast (len inst) :: 32 word) < 2 ^ LENGTH(32)"
    by (rule unsigned_less)
  finally have "unat (idx inst) + unat (1 :: 32 word) < 2 ^ LENGTH(32)"
    by simp
  then have "unat (idx inst + 1) = unat (idx inst) + unat (1 :: 32 word)"
    by (simp only: unat_add_lem)
  with below show "((inst\<lparr>idx := idx inst + 1\<rparr>, w1), (inst, w))
      \<in> measure (\<lambda>(inst, w). unat (ucast (len inst) :: 32 word) - unat (idx inst))"
    by simp
qed

declare FRAME_loop.simps [simp del]

text \<open>
  The body of \<open>RADIO_Process\<close> for a non-null instance: the \<open>switch\<close> on the state.
  IDLE has no case of its own in the C code and falls to \<open>default\<close>, which does nothing.
\<close>

definition RADIO_Process_switch :: "RADIO_Instance \<Rightarrow> world \<Rightarrow> RADIO_Instance \<times> world" where
  "RADIO_Process_switch inst w =
     (case state inst of
        RADIO_STATE_CONFIGURE \<Rightarrow>
          (let w1 = snd (SetReg inst ADDR_PWRMODE PWRMODE_STANDBY w);
               inst1 = inst\<lparr>idx := HAL_GetTick w1 + CONFIGURATION_DELAY\<rparr>;
               w2 = snd (SetReg inst1 ADDR_XTALOSC CONF_XTALOSC w1);
               w3 = snd (SetReg inst1 ADDR_PLLLOOP CONF_PLLLOOP w2);
               w4 = snd (SetReg inst1 ADDR_FREQ3 CONF_FREQ3 w3);
               w5 = snd (SetReg inst1 ADDR_FREQ2 CONF_FREQ2 w4);
               w6 = snd (SetReg inst1 ADDR_FREQ1 CONF_FREQ1 w5);
               w7 = snd (SetReg inst1 ADDR_FREQ0 CONF_FREQ0 w6);
               w8 = snd (SetReg inst1 ADDR_TXPWR CONF_TXPWR w7);
               w9 = snd (SetReg inst1 ADDR_FSKDEV2 CONF_FSKDEV2 w8);
               w10 = snd (SetReg inst1 ADDR_FSKDEV1 CONF_FSKDEV1 w9);
               w11 = snd (SetReg inst1 ADDR_FSKDEV0 CONF_FSKDEV0 w10);
               w12 = snd (SetReg inst1 ADDR_TXRATEHI CONF_TXRATEHI w11);
               w13 = snd (SetReg inst1 ADDR_TXRATEMID CONF_TXRATEMID w12);
               w14 = snd (SetReg inst1 ADDR_TXRATELO CONF_TXRATELO w13);
               w15 = snd (SetReg inst1 ADDR_MODULATION CONF_MODULATION w14);
               w16 = snd (SetReg inst1 ADDR_ENCODING CONF_ENCODING w15);
               w17 = snd (SetReg inst1 ADDR_FRAMING CONF_FRAMING w16);
               inst2 = inst1\<lparr>nextAR := 0\<rparr>;
               w18 = DumpRegister inst2 w17
           in (inst2\<lparr>state := RADIO_STATE_WAIT_CONF\<rparr>, w18))
      | RADIO_STATE_WAIT_CONF \<Rightarrow>
          (if HAL_GetTick w > idx inst
           then (inst\<lparr>state := RADIO_STATE_IDLE\<rparr>, w)
           else (inst, w))
      | RADIO_STATE_START_TX \<Rightarrow>
          (let w1 = snd (SetReg inst ADDR_PWRMODE PWRMODE_SYNTHTX w)
           in (inst\<lparr>idx := HAL_GetTick w1 + STARTUP_DELAY, state := RADIO_STATE_WAIT_TX\<rparr>, w1))
      | RADIO_STATE_WAIT_TX \<Rightarrow>
          (if HAL_GetTick w > idx inst
           then (if HAL_GetTick w > nextAR inst
                 then (let w1 = snd (SetReg inst ADDR_PWRMODE PWRMODE_FULLTX w)
                       in (inst\<lparr>idx := HAL_GetTick w1 + PREAMBLE_DURATION,
                                 state := RADIO_STATE_PREAMBLE\<rparr>, w1))
                 else (let w1 = snd (SetReg inst ADDR_PLLRANGING CONF_PLLRANGING w)
                       in (inst\<lparr>state := RADIO_STATE_WAIT_AR\<rparr>, w1)))
           else (inst, w))
      | RADIO_STATE_WAIT_AR \<Rightarrow>
          (case GetReg inst ADDR_PLLRANGING w of
             (status, reg, w1) \<Rightarrow>
               if reg AND MASK_PLLRANGING_ERROR \<noteq> 0
               then (inst\<lparr>state := RADIO_STATE_CONFIGURE\<rparr>, w1)
               else if reg AND MASK_PLLRANGING_START = 0
               then (let w2 = snd (SetReg inst ADDR_PWRMODE PWRMODE_FULLTX w1)
                     in (inst\<lparr>state := RADIO_STATE_PREAMBLE,
                               nextAR := HAL_GetTick w2 + AR_INTERVAL,
                               idx := HAL_GetTick w2 + PREAMBLE_DURATION\<rparr>, w2))
               else (inst, w1))
      | RADIO_STATE_PREAMBLE \<Rightarrow>
          (if HAL_GetTick w < idx inst
           then (inst, snd (SetReg inst ADDR_FIFODATA PREAMBLE_MSG w))
           else (inst\<lparr>idx := 0, state := RADIO_STATE_FRAME\<rparr>, w))
      | RADIO_STATE_FRAME \<Rightarrow>
          (if idx inst \<ge> ucast (len inst)
           then (inst\<lparr>state := RADIO_STATE_POSTAMBLE, idx := 0\<rparr>, w)
           else FRAME_loop inst w)
      | RADIO_STATE_POSTAMBLE \<Rightarrow>
          (let w1 = snd (Transmit10 inst 0 w)
           in if idx inst = 0
              then (inst\<lparr>idx := idx inst + 1\<rparr>, w1)
              else (let w2 = snd (SetReg inst ADDR_PWRMODE PWRMODE_STANDBY w1)
                    in (inst\<lparr>state := RADIO_STATE_IDLE, idx := 0\<rparr>, w2)))
      | RADIO_STATE_IDLE \<Rightarrow> (inst, w))"

definition RADIO_Process :: "RADIO_Instance option \<Rightarrow> world \<Rightarrow> RADIO_Instance option \<times> world" where
  "RADIO_Process inst w =
     (case inst of
        None \<Rightarrow> (None, w)
      | Some i \<Rightarrow> (case RADIO_Process_switch i w of (i', w') \<Rightarrow> (Some i', w')))"

text \<open>
  \<open>RADIO_FRAME_LENGTH\<close> is defined in radio.h, which is not among the sources; it is
  the first argument here. \<open>data\<close> is a pointer: \<open>None\<close> is the null pointer,
  \<open>Some bs\<close> a buffer holding the bytes \<open>bs\<close>.
\<close>

definition RADIO_SetFrame ::
  "nat \<Rightarrow> RADIO_Instance option \<Rightarrow> 8 word list option \<Rightarrow> 16 word \<Rightarrow> RADIO_Instance option" where
  "RADIO_SetFrame RADIO_FRAME_LENGTH inst data l =
     (case inst of
        None \<Rightarrow> None
      | Some i \<Rightarrow>
          (case data of
             None \<Rightarrow> Some i
           | Some bs \<Rightarrow>
               if state i = RADIO_STATE_IDLE \<and> l \<noteq> 0 \<and> unat l < RADIO_FRAME_LENGTH
               then Some (i\<lparr>frame := memcpy (frame i) bs (unat l), len := l, idx := 0,
                            state := RADIO_STATE_START_TX\<rparr>)
               else Some i))"

text \<open>
  \<open>RADIO_GetState\<close> returns a value of the C enumeration, an integer: the literal 0 for
  a null instance, the state otherwise. The integer value of each enumerator is fixed
  in radio.h, which is not among the sources; it is the parameter \<open>val\<close>.
\<close>

definition RADIO_GetState :: "(RADIO_State \<Rightarrow> nat) \<Rightarrow> RADIO_Instance option \<Rightarrow> nat" where
  "RADIO_GetState val inst =
     (case inst of
        None \<Rightarrow> 0
      | Some i \<Rightarrow> val (state i))"

section \<open>The host and what it observes\<close>

subsection \<open>The host loop\<close>

text \<open>
  After \<open>RADIO_Init\<close> a host makes two kinds of calls: \<open>RADIO_Process\<close>, at a clock
  value that the environment chooses, and \<open>RADIO_SetFrame\<close>. \<open>host\<close> makes a list of
  such calls in order; its first argument is \<open>RADIO_FRAME_LENGTH\<close>.
\<close>

datatype host_call =
    Call_Process "32 word"
  | Call_SetFrame "8 word list option" "16 word"

fun host_step ::
  "nat \<Rightarrow> host_call \<Rightarrow> RADIO_Instance option \<times> world \<Rightarrow> RADIO_Instance option \<times> world" where
  "host_step cap (Call_Process t) (io, w) = RADIO_Process io (w\<lparr>tick := t\<rparr>)"
| "host_step cap (Call_SetFrame d l) (io, w) = (RADIO_SetFrame cap io d l, w)"

primrec host ::
  "nat \<Rightarrow> host_call list \<Rightarrow> RADIO_Instance option \<times> world \<Rightarrow> RADIO_Instance option \<times> world" where
  "host cap [] s = s"
| "host cap (c # cs) s = host cap cs (host_step cap c s)"


subsection \<open>Observing the bus\<close>

text \<open>
  The vocabulary of the statements below. A register access is one chip-select frame of
  two byte transfers: the address byte with the read/write flag (the status byte comes
  back), then the value. \<open>write_txn h a v s r\<close> is the frame that writes \<open>v\<close> to
  register \<open>a\<close> on bus \<open>h\<close> when the device answers \<open>s\<close> (the status) and \<open>r\<close>;
  \<open>read_txn h a s r\<close> is the frame that reads \<open>r\<close> from register \<open>a\<close>.
\<close>

definition write_txn ::
  "SPI_Init_Struct \<Rightarrow> 8 word \<Rightarrow> 8 word \<Rightarrow> 8 word \<Rightarrow> 8 word \<Rightarrow> spi_event list" where
  "write_txn h addr v s r =
     [CS_Enable h, WriteRead h (0x80 OR (addr AND 0x7F)) s, WriteRead h v r, CS_Disable h]"

definition read_txn ::
  "SPI_Init_Struct \<Rightarrow> 8 word \<Rightarrow> 8 word \<Rightarrow> 8 word \<Rightarrow> spi_event list" where
  "read_txn h addr s r =
     [CS_Enable h, WriteRead h (addr AND 0x7F) s, WriteRead h 0xff r, CS_Disable h]"

text \<open>
  \<open>reg_ops\<close> reads a bus record back as register accesses, with the address, the
  value and the status byte of each; \<open>sent w w'\<close> is what was added to the record
  between two worlds.
\<close>

datatype reg_op =
    RegWrite "8 word" "8 word" "8 word"
  | RegRead "8 word" "8 word" "8 word"

fun reg_ops :: "spi_event list \<Rightarrow> reg_op list" where
  "reg_ops (CS_Enable h # WriteRead h1 a s # WriteRead h2 d r # CS_Disable h3 # es) =
     (if bit a 7 then RegWrite (a AND 0x7F) d s else RegRead (a AND 0x7F) r s) # reg_ops es"
| "reg_ops (e # es) = reg_ops es"
| "reg_ops [] = []"

definition sent :: "world \<Rightarrow> world \<Rightarrow> spi_event list" where
  "sent w w' = drop (length (bus w)) (bus w')"

text \<open>
  \<open>reg_writes\<close> lists the register writes of a bus record, as pairs of address and
  value.
\<close>

fun written :: "reg_op \<Rightarrow> (8 word \<times> 8 word) list" where
  "written (RegWrite a v s) = [(a, v)]"
| "written (RegRead a v s) = []"

definition reg_writes :: "spi_event list \<Rightarrow> (8 word \<times> 8 word) list" where
  "reg_writes es = concat (map written (reg_ops es))"

text \<open>
  A write to the FIFO-control register that comes back with the FIFO-full flag (bit 3 of
  the status byte) is a symbol that \<open>Transmit10\<close> gave up. \<open>accepted_writes\<close> lists the
  register writes without those.
\<close>

fun accepted :: "reg_op \<Rightarrow> (8 word \<times> 8 word) list" where
  "accepted (RegWrite a v s) = (if a = ADDR_FIFOCTRL \<and> bit s 3 then [] else [(a, v)])"
| "accepted (RegRead a v s) = []"

definition accepted_writes :: "spi_event list \<Rightarrow> (8 word \<times> 8 word) list" where
  "accepted_writes es = concat (map accepted (reg_ops es))"

text \<open>
  Every call of \<open>Transmit10\<close> writes the FIFO-control register exactly once, and nothing
  else does: the number of those writes is the number of symbols attempted.
\<close>

definition symbol_attempts :: "spi_event list \<Rightarrow> nat" where
  "symbol_attempts es = length (filter (\<lambda>(a, v). a = ADDR_FIFOCTRL) (reg_writes es))"

text \<open>The bus an operation was made on.\<close>

fun handle_of :: "spi_event \<Rightarrow> SPI_Init_Struct" where
  "handle_of (CS_Enable h) = h"
| "handle_of (WriteRead h tx rx) = h"
| "handle_of (CS_Disable h) = h"

fun is_read :: "reg_op \<Rightarrow> bool" where
  "is_read (RegRead a v s) = True"
| "is_read (RegWrite a v s) = False"

text \<open>
  \<open>frames es ops\<close>: the bus operations \<open>es\<close> are whole register accesses that read
  back as \<open>ops\<close>, whatever follows them on the bus.
\<close>

definition frames :: "spi_event list \<Rightarrow> reg_op list \<Rightarrow> bool" where
  "frames es ops = (\<forall>rest. reg_ops (es @ rest) = ops @ reg_ops rest)"


subsection \<open>Reference behaviour\<close>

text \<open>
  The configuration of the CONFIGURE case: the register writes in the order of the
  source. \<open>SetRegs\<close> makes a list of register writes one after the other.
\<close>

definition config_writes :: "(8 word \<times> 8 word) list" where
  "config_writes =
     [(ADDR_PWRMODE, PWRMODE_STANDBY), (ADDR_XTALOSC, CONF_XTALOSC), (ADDR_PLLLOOP, CONF_PLLLOOP),
      (ADDR_FREQ3, CONF_FREQ3), (ADDR_FREQ2, CONF_FREQ2), (ADDR_FREQ1, CONF_FREQ1),
      (ADDR_FREQ0, CONF_FREQ0), (ADDR_TXPWR, CONF_TXPWR), (ADDR_FSKDEV2, CONF_FSKDEV2),
      (ADDR_FSKDEV1, CONF_FSKDEV1), (ADDR_FSKDEV0, CONF_FSKDEV0), (ADDR_TXRATEHI, CONF_TXRATEHI),
      (ADDR_TXRATEMID, CONF_TXRATEMID), (ADDR_TXRATELO, CONF_TXRATELO),
      (ADDR_MODULATION, CONF_MODULATION), (ADDR_ENCODING, CONF_ENCODING),
      (ADDR_FRAMING, CONF_FRAMING)]"

definition SetRegs :: "RADIO_Instance \<Rightarrow> (8 word \<times> 8 word) list \<Rightarrow> world \<Rightarrow> world" where
  "SetRegs inst pairs w = fold (\<lambda>(a, d) w. snd (SetReg inst a d w)) pairs w"

text \<open>
  The two register writes of an accepted symbol: the high bits of \<open>IQ_0\<close> or \<open>IQ_1\<close>
  to FIFO-control, the low byte to FIFO-data.
\<close>

definition symbol_writes :: "8 word \<Rightarrow> (8 word \<times> 8 word) list" where
  "symbol_writes b =
     [(ADDR_FIFOCTRL, if b = 0 then 0x00 else 0x03), (ADDR_FIFODATA, if b = 0 then 0x97 else 0x69)]"

text \<open>
  The spec's words for the FRAME case, to compare the loop of the source with: push the
  bytes through the symbol encoder one after the other, count a byte only when its
  symbol was accepted, and stop at the first rejection.
\<close>

fun push_bytes :: "RADIO_Instance \<Rightarrow> 8 word list \<Rightarrow> world \<Rightarrow> nat \<times> world" where
  "push_bytes inst [] w = (0, w)"
| "push_bytes inst (b # bs) w =
     (case Transmit10 inst b w of
        (r, w1) \<Rightarrow>
          if r = 0 then (0, w1)
          else (case push_bytes inst bs w1 of (k, w2) \<Rightarrow> (Suc k, w2)))"




text \<open>
  What holds of every instance between \<open>RADIO_Init\<close> and any later call: it is about to
  be configured, or \<open>nextAR\<close> is 0 and the state is not WAIT_AR.
\<close>

definition never_ranged :: "RADIO_Instance option \<Rightarrow> bool" where
  "never_ranged io =
     (case io of
        None \<Rightarrow> True
      | Some i \<Rightarrow> state i = RADIO_STATE_CONFIGURE
                 \<or> (nextAR i = 0 \<and> state i \<noteq> RADIO_STATE_WAIT_AR))"

subsection \<open>Example values\<close>

text \<open>A device that answers 0 to every transfer (FIFO never full, ranging done, no error).\<close>

definition quiet_world :: "32 word \<Rightarrow> world" where
  "quiet_world t = \<lparr>tick = t, miso = (\<lambda>k. 0), nx = 0, bus = []\<rparr>"

text \<open>A device that answers with all bits set (FIFO full, ranging error).\<close>

definition busy_world :: "32 word \<Rightarrow> world" where
  "busy_world t = \<lparr>tick = t, miso = (\<lambda>k. 0xFF), nx = 0, bus = []\<rparr>"

text \<open>
  A device that reports a full FIFO (status bit 3) exactly at the transfers that
  \<open>full\<close> selects.
\<close>

definition fifo_world :: "(nat \<Rightarrow> bool) \<Rightarrow> 32 word \<Rightarrow> world" where
  "fifo_world full t = \<lparr>tick = t, miso = (\<lambda>k. if full k then 0x08 else 0), nx = 0, bus = []\<rparr>"

text \<open>An instance on bus 1 with a four-byte frame buffer, in a given state and cursor.\<close>

definition example_inst :: "RADIO_State \<Rightarrow> 32 word \<Rightarrow> RADIO_Instance" where
  "example_inst st i =
     \<lparr>spi = 1, state = st, frame = [0xA5, 0x00, 0x3C, 0x00], len = 3, idx = i, nextAR = 0\<rparr>"

text \<open>
  The calls of a first transmission: configuration at tick 0, IDLE at tick 6, a one-byte
  frame, start-up at tick 10, and the call at tick 12 that leaves WAIT_TX.
\<close>

definition first_transmission :: "host_call list" where
  "first_transmission =
     [Call_Process 0, Call_Process 6, Call_SetFrame (Some [0xA5]) 1,
      Call_Process 10, Call_Process 12]"


section \<open>Register access and the symbol encoder\<close>

lemma SetReg_eq:
  "SetReg inst a d w =
     (miso w (nx w),
      w\<lparr>nx := nx w + 2,
        bus := bus w @ write_txn (spi inst) a d (miso w (nx w)) (miso w (nx w + 1))\<rparr>)"
  by (simp add: SetReg_def SPI_CS_Enable_def SPI_CS_Disable_def SPI_WriteRead_def write_txn_def)

lemma GetReg_eq:
  "GetReg inst a w =
     (miso w (nx w), miso w (nx w + 1),
      w\<lparr>nx := nx w + 2,
        bus := bus w @ read_txn (spi inst) a (miso w (nx w)) (miso w (nx w + 1))\<rparr>)"
  by (simp add: GetReg_def SPI_CS_Enable_def SPI_CS_Disable_def SPI_WriteRead_def read_txn_def)

lemma SetReg_idx: "SetReg (inst\<lparr>idx := x\<rparr>) a d w = SetReg inst a d w"
  by (simp add: SetReg_def)

lemma SetReg_tick: "tick (snd (SetReg inst a d w)) = tick w"
  by (simp add: SetReg_eq)

lemma fifo_full_bit: "(s AND 8 = 0) = (\<not> bit s 3)" for s :: "8 word"
  using bit_iff_and_push_bit_not_eq_0 [of s 3] by simp

lemma ranging_error_bit: "(s AND 0x20 = 0) = (\<not> bit s 5)" for s :: "8 word"
  using bit_iff_and_push_bit_not_eq_0 [of s 5] by simp

lemma ranging_start_bit: "(s AND 0x10 = 0) = (\<not> bit s 4)" for s :: "8 word"
  using bit_iff_and_push_bit_not_eq_0 [of s 4] by simp

lemma add_3_Suc: "n + 3 = Suc (Suc (Suc n))"
  by simp

lemma add_4_Suc: "n + 4 = Suc (Suc (Suc (Suc n)))"
  by simp

lemma Transmit10_eq:
  "Transmit10 inst b w =
     (if \<not> bit (miso w (nx w)) 3
      then (1, w\<lparr>nx := nx w + 4,
                 bus := bus w
                   @ write_txn (spi inst) ADDR_FIFOCTRL (if b = 0 then 0x00 else 0x03)
                       (miso w (nx w)) (miso w (nx w + 1))
                   @ write_txn (spi inst) ADDR_FIFODATA (if b = 0 then 0x97 else 0x69)
                       (miso w (nx w + 2)) (miso w (nx w + 3))\<rparr>)
      else (0, w\<lparr>nx := nx w + 2,
                 bus := bus w
                   @ write_txn (spi inst) ADDR_FIFOCTRL (if b = 0 then 0x00 else 0x03)
                       (miso w (nx w)) (miso w (nx w + 1))\<rparr>))"
  by (simp add: Transmit10_def SetReg_eq fifo_full_bit Let_def add_3_Suc add_4_Suc)


text \<open>
  C5. \<open>Transmit10\<close> sends the 10-bit symbol \<open>0x097\<close> for the value 0 and the different
  10-bit symbol \<open>0x369\<close> for any other value, 1 among them. It always writes the two
  high bits of the symbol to the FIFO-control register. When bit 3 (FIFO full) of the
  status byte that comes back with that write is clear, it writes the low byte to the
  FIFO-data register and returns 1; when the bit is set it makes no further bus
  operation and returns 0.
\<close>

theorem Transmit10_symbol:
  "Transmit10 inst b w =
     (let sym = (if b = 0 then 0x097 else 0x369) :: 16 word;
          hi = ucast (drop_bit 8 sym) :: 8 word;
          lo = ucast (take_bit 8 sym) :: 8 word;
          status = miso w (nx w);
          ctrl = write_txn (spi inst) ADDR_FIFOCTRL hi status (miso w (nx w + 1));
          data = write_txn (spi inst) ADDR_FIFODATA lo (miso w (nx w + 2)) (miso w (nx w + 3))
      in if bit status 3
         then (0, w\<lparr>nx := nx w + 2, bus := bus w @ ctrl\<rparr>)
         else (1, w\<lparr>nx := nx w + 4, bus := bus w @ ctrl @ data\<rparr>))
   \<and> IQ_0 \<noteq> IQ_1 \<and> IQ_0 < 2 ^ 10 \<and> IQ_1 < 2 ^ 10"
  by (simp add: Transmit10_eq Let_def)

theorem Transmit10_symbol_witness:
  "Transmit10 (example_inst RADIO_STATE_FRAME 0) 1 (quiet_world 7) =
     (1, \<lparr>tick = 7, miso = (\<lambda>k. 0), nx = 4,
          bus = [CS_Enable 1, WriteRead 1 0x84 0, WriteRead 1 0x03 0, CS_Disable 1,
                 CS_Enable 1, WriteRead 1 0x85 0, WriteRead 1 0x69 0, CS_Disable 1]\<rparr>)
   \<and> Transmit10 (example_inst RADIO_STATE_FRAME 0) 0 (busy_world 7) =
     (0, \<lparr>tick = 7, miso = (\<lambda>k. 0xFF), nx = 2,
          bus = [CS_Enable 1, WriteRead 1 0x84 0xFF, WriteRead 1 0x00 0xFF, CS_Disable 1]\<rparr>)"
  using Transmit10_symbol [of "example_inst RADIO_STATE_FRAME 0" 1 "quiet_world 7"]
    Transmit10_symbol [of "example_inst RADIO_STATE_FRAME 0" 0 "busy_world 7"]
  by (simp add: example_inst_def quiet_world_def busy_world_def write_txn_def Let_def)

section \<open>Reading the bus record\<close>

lemma addr_write_flag: "bit (0x80 OR (a AND 0x7F) :: 8 word) 7"
  by (simp add: bit_simps)

lemma addr_write_mask: "(0x80 OR (a AND 0x7F)) AND 0x7F = a AND (0x7F :: 8 word)"
  by (simp add: bit.conj_disj_distrib2 and.assoc)

lemma addr_read_flag: "\<not> bit (a AND 0x7F :: 8 word) 7"
  by (simp add: bit_simps)

lemma frames_Nil: "frames [] []"
  by (simp add: frames_def)

lemma frames_append: "frames es1 o1 \<Longrightarrow> frames es2 o2 \<Longrightarrow> frames (es1 @ es2) (o1 @ o2)"
  by (simp add: frames_def)

lemma frames_write: "frames (write_txn h a v s r) [RegWrite (a AND 0x7F) v s]"
  by (simp add: frames_def write_txn_def addr_write_flag addr_write_mask)

lemma frames_read: "frames (read_txn h a s r) [RegRead (a AND 0x7F) r s]"
  by (simp add: frames_def read_txn_def addr_read_flag)

lemma frames_reg_ops: "frames es ops \<Longrightarrow> reg_ops es = ops"
  using frames_def [of es ops] by (auto dest: spec [of _ "[]"])

lemma written_all_writes:
  "list_all2 (\<lambda>op (a, d). \<exists>s. op = RegWrite a d s) ops pairs \<Longrightarrow>
   concat (map written ops) = pairs"
  by (induction ops pairs rule: list_all2_induct) auto

lemma written_all_reads: "list_all is_read ops \<Longrightarrow> concat (map written ops) = []"
proof (induction ops)
  case Nil
  then show ?case by simp
next
  case (Cons op ops)
  then show ?case by (cases op) simp_all
qed

lemma reg_writes_frames: "frames es ops \<Longrightarrow> reg_writes es = concat (map written ops)"
  by (simp add: reg_writes_def frames_reg_ops)

lemma accepted_writes_frames: "frames es ops \<Longrightarrow> accepted_writes es = concat (map accepted ops)"
  by (simp add: accepted_writes_def frames_reg_ops)

lemma sent_append: "sent w (w\<lparr>nx := n, bus := bus w @ es\<rparr>) = es"
  by (simp add: sent_def)

lemma Transmit10_frames:
  "\<exists>n es ops. Transmit10 inst b w =
        (if bit (miso w (nx w)) 3 then 0 else 1, w\<lparr>nx := n, bus := bus w @ es\<rparr>)
      \<and> nx w < n \<and> frames es ops
      \<and> concat (map accepted ops) = (if bit (miso w (nx w)) 3 then [] else symbol_writes b)
      \<and> concat (map written ops) =
          (if bit (miso w (nx w)) 3 then [hd (symbol_writes b)] else symbol_writes b)"
proof (cases "bit (miso w (nx w)) 3")
  case True
  let ?es = "write_txn (spi inst) ADDR_FIFOCTRL (if b = 0 then 0x00 else 0x03)
      (miso w (nx w)) (miso w (nx w + 1))"
  let ?ops = "[RegWrite (ADDR_FIFOCTRL AND 0x7F) (if b = 0 then 0x00 else 0x03) (miso w (nx w))]"
  have 1: "Transmit10 inst b w = (if bit (miso w (nx w)) 3 then 0 else 1,
      w\<lparr>nx := nx w + 2, bus := bus w @ ?es\<rparr>)"
    using True by (simp add: Transmit10_eq)
  have 2: "frames ?es ?ops"
    by (rule frames_write)
  have 3: "concat (map accepted ?ops) = (if bit (miso w (nx w)) 3 then [] else symbol_writes b)"
    using True by simp
  have 4: "nx w < nx w + 2" by simp
  have 5: "concat (map written ?ops) =
      (if bit (miso w (nx w)) 3 then [hd (symbol_writes b)] else symbol_writes b)"
    using True by (simp add: symbol_writes_def)
  show ?thesis
    by (rule exI [of _ "nx w + 2"], rule exI [of _ ?es], rule exI [of _ ?ops])
      (intro conjI 1 2 3 4 5)
next
  case False
  let ?e1 = "write_txn (spi inst) ADDR_FIFOCTRL (if b = 0 then 0x00 else 0x03)
      (miso w (nx w)) (miso w (nx w + 1))"
  let ?e2 = "write_txn (spi inst) ADDR_FIFODATA (if b = 0 then 0x97 else 0x69)
      (miso w (nx w + 2)) (miso w (nx w + 3))"
  let ?o1 = "[RegWrite (ADDR_FIFOCTRL AND 0x7F) (if b = 0 then 0x00 else 0x03) (miso w (nx w))]"
  let ?o2 = "[RegWrite (ADDR_FIFODATA AND 0x7F) (if b = 0 then 0x97 else 0x69) (miso w (nx w + 2))]"
  have 1: "Transmit10 inst b w = (if bit (miso w (nx w)) 3 then 0 else 1,
      w\<lparr>nx := nx w + 4, bus := bus w @ (?e1 @ ?e2)\<rparr>)"
    using False by (simp add: Transmit10_eq)
  have 2: "frames (?e1 @ ?e2) (?o1 @ ?o2)"
    by (rule frames_append [OF frames_write frames_write])
  have 3: "concat (map accepted (?o1 @ ?o2)) =
      (if bit (miso w (nx w)) 3 then [] else symbol_writes b)"
    using False by (simp add: symbol_writes_def)
  have 4: "nx w < nx w + 4" by simp
  have 5: "concat (map written (?o1 @ ?o2)) =
      (if bit (miso w (nx w)) 3 then [hd (symbol_writes b)] else symbol_writes b)"
    using False by (simp add: symbol_writes_def)
  show ?thesis
    by (rule exI [of _ "nx w + 4"], rule exI [of _ "?e1 @ ?e2"], rule exI [of _ "?o1 @ ?o2"])
      (intro conjI 1 2 3 4 5)
qed

lemma push_bytes_eq:
  "\<exists>k n es ops. push_bytes inst bs w = (k, w\<lparr>nx := n, bus := bus w @ es\<rparr>)
      \<and> k \<le> length bs \<and> nx w \<le> n \<and> (bs \<noteq> [] \<longrightarrow> nx w < n)
      \<and> frames es ops
      \<and> concat (map accepted ops) = concat (map symbol_writes (take k bs))
      \<and> ((\<forall>c\<ge>nx w. \<not> bit (miso w c) 3) \<longrightarrow> k = length bs)
      \<and> concat (map written ops) =
          concat (map symbol_writes (take k bs))
          @ (if k < length bs then [hd (symbol_writes (bs ! k))] else [])"
proof (induction bs arbitrary: w)
  case Nil
  have 1: "push_bytes inst [] w = (0, w\<lparr>nx := nx w, bus := bus w @ []\<rparr>)"
    by simp
  show ?case
    by (rule exI [of _ 0], rule exI [of _ "nx w"], rule exI [of _ "[]"], rule exI [of _ "[]"])
      (simp add: frames_Nil)
next
  case (Cons b bs)
  let ?full = "bit (miso w (nx w)) 3"
  from Transmit10_frames [of inst b w]
  obtain n1 es1 ops1 where t: "Transmit10 inst b w = (if ?full then 0 else 1, w\<lparr>nx := n1, bus := bus w @ es1\<rparr>)"
    "nx w < n1" "frames es1 ops1"
    "concat (map accepted ops1) = (if ?full then [] else symbol_writes b)"
    "concat (map written ops1) = (if ?full then [hd (symbol_writes b)] else symbol_writes b)"
    by (elim exE conjE)
  show ?case
  proof (cases ?full)
    case True
    have 1: "push_bytes inst (b # bs) w = (0, w\<lparr>nx := n1, bus := bus w @ es1\<rparr>)"
      using True t(1) by simp
    have 2: "concat (map accepted ops1) = concat (map symbol_writes (take 0 (b # bs)))"
      using True t(4) by simp
    have 3: "(\<forall>c\<ge>nx w. \<not> bit (miso w c) 3) \<longrightarrow> 0 = length (b # bs)"
      using True by (auto dest: spec [of _ "nx w"])
    have 4: "nx w \<le> n1" "b # bs \<noteq> [] \<longrightarrow> nx w < n1" "0 \<le> length (b # bs)"
      using t(2) by simp_all
    have 5: "concat (map written ops1) =
        concat (map symbol_writes (take 0 (b # bs)))
        @ (if 0 < length (b # bs) then [hd (symbol_writes ((b # bs) ! 0))] else [])"
      using True t(5) by simp
    show ?thesis
      by (rule exI [of _ 0], rule exI [of _ n1], rule exI [of _ es1], rule exI [of _ ops1])
        (intro conjI 1 2 3 4 5 t(3))
  next
    case False
    define w1 where "w1 = w\<lparr>nx := n1, bus := bus w @ es1\<rparr>"
    from Cons.IH [of w1]
    obtain k n es ops where ih: "push_bytes inst bs w1 = (k, w1\<lparr>nx := n, bus := bus w1 @ es\<rparr>)"
      "k \<le> length bs" "nx w1 \<le> n" "frames es ops"
      "concat (map accepted ops) = concat (map symbol_writes (take k bs))"
      "(\<forall>c\<ge>nx w1. \<not> bit (miso w1 c) 3) \<longrightarrow> k = length bs"
      "concat (map written ops) =
          concat (map symbol_writes (take k bs))
          @ (if k < length bs then [hd (symbol_writes (bs ! k))] else [])"
      by (elim exE conjE)
    have 1: "push_bytes inst (b # bs) w = (Suc k, w\<lparr>nx := n, bus := bus w @ (es1 @ es)\<rparr>)"
      using False t(1) ih(1) by (simp add: w1_def)
    have 2: "frames (es1 @ es) (ops1 @ ops)"
      using t(3) ih(4) by (rule frames_append)
    have 3: "concat (map accepted (ops1 @ ops)) = concat (map symbol_writes (take (Suc k) (b # bs)))"
      using False t(4) ih(5) by simp
    have 4: "(\<forall>c\<ge>nx w. \<not> bit (miso w c) 3) \<longrightarrow> Suc k = length (b # bs)"
    proof
      assume a: "\<forall>c\<ge>nx w. \<not> bit (miso w c) 3"
      have "\<forall>c\<ge>nx w1. \<not> bit (miso w1 c) 3"
      proof (intro allI impI)
        fix c assume "nx w1 \<le> c"
        with t(2) have "nx w \<le> c" by (simp add: w1_def)
        with a show "\<not> bit (miso w1 c) 3" by (simp add: w1_def)
      qed
      with ih(6) show "Suc k = length (b # bs)" by simp
    qed
    have 5: "nx w \<le> n" "b # bs \<noteq> [] \<longrightarrow> nx w < n" "Suc k \<le> length (b # bs)"
      using t(2) ih(2,3) by (simp_all add: w1_def)
    have 6: "concat (map written (ops1 @ ops)) =
        concat (map symbol_writes (take (Suc k) (b # bs)))
        @ (if Suc k < length (b # bs) then [hd (symbol_writes ((b # bs) ! Suc k))] else [])"
      using False t(5) ih(7) by simp
    show ?thesis
      by (rule exI [of _ "Suc k"], rule exI [of _ n], rule exI [of _ "es1 @ es"],
          rule exI [of _ "ops1 @ ops"]) (intro conjI 1 2 3 4 5 6)
  qed
qed

lemma push_bytes_sent:
  "case push_bytes inst bs w of
     (k, w') \<Rightarrow>
       k \<le> length bs
       \<and> accepted_writes (sent w w') = concat (map symbol_writes (take k bs))
       \<and> symbol_attempts (sent w w') = (if k < length bs then Suc k else k)
       \<and> take (length (bus w)) (bus w') = bus w"
proof -
  from push_bytes_eq [of inst bs w]
  obtain k n es ops where e: "push_bytes inst bs w = (k, w\<lparr>nx := n, bus := bus w @ es\<rparr>)"
    "k \<le> length bs" "frames es ops"
    "concat (map accepted ops) = concat (map symbol_writes (take k bs))"
    "concat (map written ops) =
        concat (map symbol_writes (take k bs))
        @ (if k < length bs then [hd (symbol_writes (bs ! k))] else [])"
    by (elim exE conjE)
  have ctrl: "length (filter (\<lambda>(a, v). a = ADDR_FIFOCTRL) (concat (map symbol_writes cs))) = length cs"
    for cs
    by (induction cs) (simp_all add: symbol_writes_def)
  have "symbol_attempts es = (if k < length bs then Suc k else k)"
    using e(2) by (simp add: symbol_attempts_def reg_writes_frames [OF e(3)] e(5) ctrl)
      (simp add: symbol_writes_def)
  moreover have "accepted_writes es = concat (map symbol_writes (take k bs))"
    by (simp add: accepted_writes_frames [OF e(3)] e(4))
  ultimately show ?thesis
    using e(2) by (simp add: e(1) sent_def)
qed













section \<open>The public functions\<close>

text \<open>
  \<open>RADIO_GetState\<close> answers the literal 0 for a null instance and the value of the state
  for any other. Which enumerator, if any, has the value 0 is decided in radio.h.
\<close>

lemma RADIO_GetState_eq:
  "RADIO_GetState val None = 0"
  "RADIO_GetState val (Some inst) = val (state inst)"
  by (simp_all add: RADIO_GetState_def)

text \<open>
  C4. \<open>RADIO_SetFrame\<close> changes the instance exactly when the instance is non-null and
  IDLE, the data pointer is non-null and \<open>0 < len < RADIO_FRAME_LENGTH\<close>. It then sets
  \<open>len\<close>, \<open>idx = 0\<close> and the state START_TX, and copies \<open>len\<close> bytes: the first \<open>len\<close>
  bytes of \<open>frame\<close> are those of the data, the rest of \<open>frame\<close> is as before. In every
  other case the instance is returned as it was.
\<close>

theorem RADIO_SetFrame_accept_iff:
  "RADIO_SetFrame cap None data l = None
   \<and> RADIO_SetFrame cap (Some inst) None l = Some inst
   \<and> RADIO_SetFrame cap (Some inst) (Some bs) l =
       (if state inst = RADIO_STATE_IDLE \<and> 0 < unat l \<and> unat l < cap
        then Some (inst\<lparr>frame := take (unat l) bs @ drop (unat l) (frame inst),
                       len := l, idx := 0, state := RADIO_STATE_START_TX\<rparr>)
        else Some inst)
   \<and> ((RADIO_SetFrame cap (Some inst) data l \<noteq> Some inst) =
        (state inst = RADIO_STATE_IDLE \<and> data \<noteq> None \<and> 0 < unat l \<and> unat l < cap))
   \<and> (unat l \<le> length bs \<and> unat l \<le> length (frame inst) \<longrightarrow>
        take (unat l) (take (unat l) bs @ drop (unat l) (frame inst)) = take (unat l) bs
        \<and> drop (unat l) (take (unat l) bs @ drop (unat l) (frame inst)) = drop (unat l) (frame inst)
        \<and> length (take (unat l) bs @ drop (unat l) (frame inst)) = length (frame inst))"
proof -
  have neq: "inst\<lparr>frame := f, len := l, idx := 0, state := RADIO_STATE_START_TX\<rparr> \<noteq> inst"
    if "state inst = RADIO_STATE_IDLE" for f
  proof
    assume "inst\<lparr>frame := f, len := l, idx := 0, state := RADIO_STATE_START_TX\<rparr> = inst"
    then have "state (inst\<lparr>frame := f, len := l, idx := 0, state := RADIO_STATE_START_TX\<rparr>)
        = state inst"
      by (rule arg_cong)
    with that show False by simp
  qed
  have nz: "(l \<noteq> 0) = (0 < unat l)"
    by (simp add: unat_gt_0)
  have copy: "unat l \<le> length bs \<and> unat l \<le> length (frame inst) \<longrightarrow>
      take (unat l) (take (unat l) bs @ drop (unat l) (frame inst)) = take (unat l) bs
      \<and> drop (unat l) (take (unat l) bs @ drop (unat l) (frame inst)) = drop (unat l) (frame inst)
      \<and> length (take (unat l) bs @ drop (unat l) (frame inst)) = length (frame inst)"
    by simp
  have "RADIO_SetFrame cap None data l = None
     \<and> RADIO_SetFrame cap (Some inst) None l = Some inst
     \<and> RADIO_SetFrame cap (Some inst) (Some bs) l =
         (if state inst = RADIO_STATE_IDLE \<and> 0 < unat l \<and> unat l < cap
          then Some (inst\<lparr>frame := take (unat l) bs @ drop (unat l) (frame inst),
                         len := l, idx := 0, state := RADIO_STATE_START_TX\<rparr>)
          else Some inst)
     \<and> ((RADIO_SetFrame cap (Some inst) data l \<noteq> Some inst) =
          (state inst = RADIO_STATE_IDLE \<and> data \<noteq> None \<and> 0 < unat l \<and> unat l < cap))"
    by (cases data) (auto simp add: RADIO_SetFrame_def memcpy_def nz neq)
  with copy show ?thesis
    by (intro conjI) simp_all
qed

theorem RADIO_SetFrame_accept_iff_witness:
  "RADIO_SetFrame 4 (Some (example_inst RADIO_STATE_IDLE 9)) (Some [0x11, 0x22, 0x33]) 2 =
     Some \<lparr>spi = 1, state = RADIO_STATE_START_TX, frame = [0x11, 0x22, 0x3C, 0x00],
           len = 2, idx = 0, nextAR = 0\<rparr>
   \<and> RADIO_SetFrame 4 (Some (example_inst RADIO_STATE_IDLE 9)) (Some [0x11, 0x22, 0x33, 0x44]) 4 =
     Some (example_inst RADIO_STATE_IDLE 9)
   \<and> RADIO_SetFrame 4 (Some (example_inst RADIO_STATE_FRAME 1)) (Some [0x11, 0x22, 0x33]) 2 =
     Some (example_inst RADIO_STATE_FRAME 1)
   \<and> unat (2 :: 16 word) \<le> length [0x11, 0x22, 0x33 :: 8 word]
   \<and> unat (2 :: 16 word) \<le> length (frame (example_inst RADIO_STATE_IDLE 9))
   \<and> take (unat (2 :: 16 word))
        (take (unat (2 :: 16 word)) [0x11, 0x22, 0x33]
           @ drop (unat (2 :: 16 word)) (frame (example_inst RADIO_STATE_IDLE 9)))
      = [0x11, 0x22]"
  using RADIO_SetFrame_accept_iff [of 4 "Some [0x11, 0x22, 0x33]" 2
      "example_inst RADIO_STATE_IDLE 9" "[0x11, 0x22, 0x33]"]
    RADIO_SetFrame_accept_iff [of 4 "Some [0x11, 0x22, 0x33, 0x44]" 4
      "example_inst RADIO_STATE_IDLE 9" "[0x11, 0x22, 0x33, 0x44]"]
    RADIO_SetFrame_accept_iff [of 4 "Some [0x11, 0x22, 0x33]" 2
      "example_inst RADIO_STATE_FRAME 1" "[0x11, 0x22, 0x33]"]
  by (simp add: example_inst_def)

section \<open>The steps of the state machine\<close>

lemma RADIO_Process_Some:
  "RADIO_Process (Some i) w =
     (Some (fst (RADIO_Process_switch i w)), snd (RADIO_Process_switch i w))"
  by (simp add: RADIO_Process_def split: prod.splits)

subsection \<open>WAIT_TX\<close>


text \<open>
  C2. In WAIT_TX, a call with \<open>idx < now \<le> nextAR\<close> writes \<open>CONF_PLLRANGING\<close> (which
  has the ranging-start bit) to the PLL-ranging register and moves to WAIT_AR; a call
  with \<open>idx < now\<close> and \<open>nextAR < now\<close> writes the full-tx power mode, sets \<open>idx\<close> to
  \<open>now + PREAMBLE_DURATION\<close> (32-bit addition) and moves to PREAMBLE; a call with
  \<open>now \<le> idx\<close> changes nothing.
\<close>

theorem WAIT_TX_step:
  "state inst = RADIO_STATE_WAIT_TX \<Longrightarrow>
   RADIO_Process (Some inst) w =
     (if idx inst < tick w \<and> tick w \<le> nextAR inst
      then (Some (inst\<lparr>state := RADIO_STATE_WAIT_AR\<rparr>),
            w\<lparr>nx := nx w + 2,
              bus := bus w @ write_txn (spi inst) ADDR_PLLRANGING CONF_PLLRANGING
                               (miso w (nx w)) (miso w (nx w + 1))\<rparr>)
      else if idx inst < tick w \<and> nextAR inst < tick w
      then (Some (inst\<lparr>idx := tick w + PREAMBLE_DURATION, state := RADIO_STATE_PREAMBLE\<rparr>),
            w\<lparr>nx := nx w + 2,
              bus := bus w @ write_txn (spi inst) ADDR_PWRMODE PWRMODE_FULLTX
                               (miso w (nx w)) (miso w (nx w + 1))\<rparr>)
      else (Some inst, w))
   \<and> CONF_PLLRANGING AND MASK_PLLRANGING_START \<noteq> 0"
  by (auto simp add: RADIO_Process_def RADIO_Process_switch_def HAL_GetTick_def SetReg_eq Let_def)

theorem WAIT_TX_step_witness:
  "RADIO_Process (Some (example_inst RADIO_STATE_WAIT_TX 11)) (quiet_world 12) =
     (Some (example_inst RADIO_STATE_PREAMBLE 172),
      \<lparr>tick = 12, miso = (\<lambda>k. 0), nx = 2,
        bus = [CS_Enable 1, WriteRead 1 0x82 0, WriteRead 1 0x0D 0, CS_Disable 1]\<rparr>)
   \<and> RADIO_Process (Some (example_inst RADIO_STATE_WAIT_TX 11)) (quiet_world 11) =
     (Some (example_inst RADIO_STATE_WAIT_TX 11), quiet_world 11)
   \<and> RADIO_Process (Some ((example_inst RADIO_STATE_WAIT_TX 11)\<lparr>nextAR := 500\<rparr>)) (quiet_world 12) =
     (Some ((example_inst RADIO_STATE_WAIT_AR 11)\<lparr>nextAR := 500\<rparr>),
      \<lparr>tick = 12, miso = (\<lambda>k. 0), nx = 2,
        bus = [CS_Enable 1, WriteRead 1 0xAD 0, WriteRead 1 0x18 0, CS_Disable 1]\<rparr>)"
  using WAIT_TX_step [of "example_inst RADIO_STATE_WAIT_TX 11" "quiet_world 12"]
    WAIT_TX_step [of "example_inst RADIO_STATE_WAIT_TX 11" "quiet_world 11"]
    WAIT_TX_step [of "(example_inst RADIO_STATE_WAIT_TX 11)\<lparr>nextAR := 500\<rparr>" "quiet_world 12"]
  by (simp add: example_inst_def quiet_world_def write_txn_def)

subsection \<open>WAIT_AR\<close>

lemma FRAME_loop_state: "state (fst (FRAME_loop inst w)) = state inst"
proof (induction inst w rule: FRAME_loop.induct)
  case (1 inst w)
  show ?case
  proof (cases "idx inst < ucast (len inst)")
    case False
    then show ?thesis by (simp add: FRAME_loop.simps [of inst w])
  next
    case True
    obtain r w1 where t: "Transmit10 inst (frame inst ! unat (idx inst)) w = (r, w1)"
      by (cases "Transmit10 inst (frame inst ! unat (idx inst)) w")
    show ?thesis
    proof (cases "r = 0")
      case True
      with \<open>idx inst < ucast (len inst)\<close> t show ?thesis
        by (simp add: FRAME_loop.simps [of inst w])
    next
      case False
      with True t "1.IH" [OF True t [symmetric] False] show ?thesis
        by (simp add: FRAME_loop.simps [of inst w])
    qed
  qed
qed

lemma FRAME_loop_only_idx: "\<exists>x w'. FRAME_loop inst w = (inst\<lparr>idx := x\<rparr>, w')"
proof (induction inst w rule: FRAME_loop.induct)
  case (1 inst w)
  show ?case
  proof (cases "idx inst < ucast (len inst)")
    case False
    then have "FRAME_loop inst w = (inst\<lparr>idx := idx inst\<rparr>, w)"
      by (simp add: FRAME_loop.simps [of inst w])
    then show ?thesis by (intro exI)
  next
    case True
    obtain r w1 where t: "Transmit10 inst (frame inst ! unat (idx inst)) w = (r, w1)"
      by (cases "Transmit10 inst (frame inst ! unat (idx inst)) w")
    show ?thesis
    proof (cases "r = 0")
      case True
      with \<open>idx inst < ucast (len inst)\<close> t
      have "FRAME_loop inst w = (inst\<lparr>idx := idx inst\<rparr>, w1)"
        by (simp add: FRAME_loop.simps [of inst w])
      then show ?thesis by (intro exI)
    next
      case False
      from "1.IH" [OF True t [symmetric] False]
      obtain x w' where "FRAME_loop (inst\<lparr>idx := idx inst + 1\<rparr>) w1 =
          (inst\<lparr>idx := idx inst + 1, idx := x\<rparr>, w')"
        by (elim exE)
      with True t False have "FRAME_loop inst w = (inst\<lparr>idx := x\<rparr>, w')"
        by (simp add: FRAME_loop.simps [of inst w])
      then show ?thesis by (intro exI)
    qed
  qed
qed

lemma WAIT_AR_eq:
  "state inst = RADIO_STATE_WAIT_AR \<Longrightarrow>
   RADIO_Process_switch inst w =
     (let reg = miso w (nx w + 1);
          rd = read_txn (spi inst) ADDR_PLLRANGING (miso w (nx w)) reg
      in if bit reg 5
         then (inst\<lparr>state := RADIO_STATE_CONFIGURE\<rparr>, w\<lparr>nx := nx w + 2, bus := bus w @ rd\<rparr>)
         else if \<not> bit reg 4
         then (inst\<lparr>state := RADIO_STATE_PREAMBLE, nextAR := tick w + AR_INTERVAL,
                    idx := tick w + PREAMBLE_DURATION\<rparr>,
               w\<lparr>nx := nx w + 4,
                 bus := bus w @ rd @ write_txn (spi inst) ADDR_PWRMODE PWRMODE_FULLTX
                                        (miso w (nx w + 2)) (miso w (nx w + 3))\<rparr>)
         else (inst, w\<lparr>nx := nx w + 2, bus := bus w @ rd\<rparr>))"
  by (simp add: RADIO_Process_switch_def HAL_GetTick_def SetReg_eq GetReg_eq Let_def
      ranging_error_bit ranging_start_bit add_3_Suc add_4_Suc)

lemma enters_CONFIGURE:
  "(state (fst (RADIO_Process_switch i v)) = RADIO_STATE_CONFIGURE) =
   (state i = RADIO_STATE_WAIT_AR \<and> bit (miso v (nx v + 1)) 5)"
proof (cases "state i")
  case RADIO_STATE_WAIT_AR
  then show ?thesis by (simp add: WAIT_AR_eq Let_def)
next
  case RADIO_STATE_FRAME
  then show ?thesis
    by (simp add: RADIO_Process_switch_def FRAME_loop_state)
qed (simp_all add: RADIO_Process_switch_def Let_def)

subsection \<open>CONFIGURE\<close>

lemma DumpRegister_loop_eq:
  "\<exists>n es ops. DumpRegister_loop inst i w = w\<lparr>nx := n, bus := bus w @ es\<rparr>
      \<and> frames es ops \<and> list_all is_read ops \<and> list_all (\<lambda>e. handle_of e = spi inst) es"
proof (induction inst i w rule: DumpRegister_loop.induct)
  case (1 inst i w)
  show ?case
  proof (cases "i \<le> MAX_ADDR")
    case False
    have "DumpRegister_loop inst i w = w\<lparr>nx := nx w, bus := bus w @ []\<rparr>
        \<and> frames [] [] \<and> list_all is_read []
        \<and> list_all (\<lambda>e. handle_of e = spi inst) []"
      using False by (simp add: DumpRegister_loop.simps [of inst i w] frames_Nil)
    then show ?thesis by blast
  next
    case True
    define w1 where "w1 = w\<lparr>nx := nx w + 2,
        bus := bus w @ read_txn (spi inst) i (miso w (nx w)) (miso w (nx w + 1))\<rparr>"
    have g: "GetReg inst i w = (miso w (nx w), miso w (nx w + 1), w1)"
      by (simp add: GetReg_eq w1_def)
    from "1.IH" [OF True g [symmetric] refl]
    obtain n es ops where ih: "DumpRegister_loop inst (i + 1) w1 = w1\<lparr>nx := n, bus := bus w1 @ es\<rparr>"
      "frames es ops" "list_all is_read ops" "list_all (\<lambda>e. handle_of e = spi inst) es"
      by blast
    have "DumpRegister_loop inst i w = DumpRegister_loop inst (i + 1) w1"
      using True g by (simp add: DumpRegister_loop.simps [of inst i w])
    also have "\<dots> = w\<lparr>nx := n,
        bus := bus w @ (read_txn (spi inst) i (miso w (nx w)) (miso w (nx w + 1)) @ es)\<rparr>"
      by (simp add: ih(1)) (simp add: w1_def)
    finally have "DumpRegister_loop inst i w = w\<lparr>nx := n,
        bus := bus w @ (read_txn (spi inst) i (miso w (nx w)) (miso w (nx w + 1)) @ es)\<rparr>" .
    moreover have "frames (read_txn (spi inst) i (miso w (nx w)) (miso w (nx w + 1)) @ es)
        ([RegRead (i AND 0x7F) (miso w (nx w + 1)) (miso w (nx w))] @ ops)"
      by (rule frames_append [OF frames_read ih(2)])
    moreover have "list_all is_read ([RegRead (i AND 0x7F) (miso w (nx w + 1)) (miso w (nx w))] @ ops)"
      using ih(3) by simp
    moreover have "list_all (\<lambda>e. handle_of e = spi inst)
        (read_txn (spi inst) i (miso w (nx w)) (miso w (nx w + 1)) @ es)"
      using ih(4) by (simp add: read_txn_def)
    ultimately show ?thesis by blast
  qed
qed

lemma CONFIGURE_unfold:
  "state inst = RADIO_STATE_CONFIGURE \<Longrightarrow>
   RADIO_Process_switch inst w =
     (inst\<lparr>idx := tick w + CONFIGURATION_DELAY, nextAR := 0, state := RADIO_STATE_WAIT_CONF\<rparr>,
      DumpRegister (inst\<lparr>idx := tick w + CONFIGURATION_DELAY, nextAR := 0\<rparr>)
        (SetRegs inst config_writes w))"
  by (simp add: RADIO_Process_switch_def Let_def SetRegs_def config_writes_def HAL_GetTick_def
      SetReg_idx SetReg_tick)

lemma SetRegs_eq:
  "list_all (\<lambda>(a, d). a AND 0x7F = a) pairs \<Longrightarrow>
   \<exists>n es ops. SetRegs inst pairs w = w\<lparr>nx := n, bus := bus w @ es\<rparr>
      \<and> frames es ops \<and> list_all2 (\<lambda>op (a, d). \<exists>s. op = RegWrite a d s) ops pairs
      \<and> list_all (\<lambda>e. handle_of e = spi inst) es"
proof (induction pairs arbitrary: w)
  case Nil
  have "SetRegs inst [] w = w\<lparr>nx := nx w, bus := bus w @ []\<rparr>
      \<and> frames [] [] \<and> list_all2 (\<lambda>op (a, d). \<exists>s. op = RegWrite a d s) [] []
      \<and> list_all (\<lambda>e. handle_of e = spi inst) []"
    by (simp add: SetRegs_def frames_Nil)
  then show ?case by blast
next
  case (Cons p pairs)
  obtain a d where p: "p = (a, d)" by (cases p)
  with Cons.prems have a: "a AND 0x7F = a" and rest: "list_all (\<lambda>(a, d). a AND 0x7F = a) pairs"
    by simp_all
  define t where "t = write_txn (spi inst) a d (miso w (nx w)) (miso w (nx w + 1))"
  define w1 where "w1 = w\<lparr>nx := nx w + 2, bus := bus w @ t\<rparr>"
  from Cons.IH [OF rest, of w1]
  obtain n es ops where ih: "SetRegs inst pairs w1 = w1\<lparr>nx := n, bus := bus w1 @ es\<rparr>"
    "frames es ops" "list_all2 (\<lambda>op (a, d). \<exists>s. op = RegWrite a d s) ops pairs"
    "list_all (\<lambda>e. handle_of e = spi inst) es"
    by blast
  have "SetRegs inst (p # pairs) w = SetRegs inst pairs w1"
    by (simp add: SetRegs_def p SetReg_eq w1_def t_def)
  also have "\<dots> = w\<lparr>nx := n, bus := bus w @ (t @ es)\<rparr>"
    by (simp add: ih(1)) (simp add: w1_def)
  finally have 1: "SetRegs inst (p # pairs) w = w\<lparr>nx := n, bus := bus w @ (t @ es)\<rparr>" .
  have "frames t [RegWrite a d (miso w (nx w))]"
    using frames_write [of "spi inst" a d "miso w (nx w)" "miso w (nx w + 1)"]
    by (simp add: t_def a)
  then have 2: "frames (t @ es) ([RegWrite a d (miso w (nx w))] @ ops)"
    using ih(2) by (rule frames_append)
  have 3: "list_all2 (\<lambda>op (a, d). \<exists>s. op = RegWrite a d s)
      ([RegWrite a d (miso w (nx w))] @ ops) (p # pairs)"
    using ih(3) by (simp add: p)
  have 4: "list_all (\<lambda>e. handle_of e = spi inst) (t @ es)"
    using ih(4) by (simp add: t_def write_txn_def)
  from 1 2 3 4 show ?case by blast
qed

lemma CONFIGURE_eq:
  assumes "state inst = RADIO_STATE_CONFIGURE"
  shows "\<exists>n es. RADIO_Process_switch inst w =
      (inst\<lparr>idx := tick w + CONFIGURATION_DELAY, nextAR := 0, state := RADIO_STATE_WAIT_CONF\<rparr>,
       w\<lparr>nx := n, bus := bus w @ es\<rparr>)
      \<and> reg_writes es = config_writes \<and> list_all (\<lambda>e. handle_of e = spi inst) es"
proof -
  define inst2 where "inst2 = inst\<lparr>idx := tick w + CONFIGURATION_DELAY, nextAR := 0\<rparr>"
  have "list_all (\<lambda>(a, d). a AND 0x7F = a) config_writes"
    by (simp add: config_writes_def)
  from SetRegs_eq [OF this, of inst w]
  obtain n1 es1 ops1 where 1: "SetRegs inst config_writes w = w\<lparr>nx := n1, bus := bus w @ es1\<rparr>"
    "frames es1 ops1" "list_all2 (\<lambda>op (a, d). \<exists>s. op = RegWrite a d s) ops1 config_writes"
    "list_all (\<lambda>e. handle_of e = spi inst) es1"
    by blast
  define w1 where "w1 = w\<lparr>nx := n1, bus := bus w @ es1\<rparr>"
  from DumpRegister_loop_eq [of inst2 0 w1]
  obtain n2 es2 ops2 where 2: "DumpRegister_loop inst2 0 w1 = w1\<lparr>nx := n2, bus := bus w1 @ es2\<rparr>"
    "frames es2 ops2" "list_all is_read ops2" "list_all (\<lambda>e. handle_of e = spi inst2) es2"
    by blast
  have "RADIO_Process_switch inst w = (inst2\<lparr>state := RADIO_STATE_WAIT_CONF\<rparr>, DumpRegister inst2 w1)"
    using assms by (simp add: CONFIGURE_unfold inst2_def w1_def 1(1))
  also have "DumpRegister inst2 w1 = w\<lparr>nx := n2, bus := bus w @ (es1 @ es2)\<rparr>"
    by (simp add: DumpRegister_def 2(1)) (simp add: w1_def)
  finally have sw: "RADIO_Process_switch inst w =
      (inst\<lparr>idx := tick w + CONFIGURATION_DELAY, nextAR := 0, state := RADIO_STATE_WAIT_CONF\<rparr>,
       w\<lparr>nx := n2, bus := bus w @ (es1 @ es2)\<rparr>)"
    by (simp add: inst2_def)
  have "frames (es1 @ es2) (ops1 @ ops2)"
    using 1(2) 2(2) by (rule frames_append)
  then have "reg_writes (es1 @ es2) = concat (map written (ops1 @ ops2))"
    by (rule reg_writes_frames)
  also have "\<dots> = config_writes"
    using written_all_writes [OF 1(3)] written_all_reads [OF 2(3)] by simp
  finally have wr: "reg_writes (es1 @ es2) = config_writes" .
  have "list_all (\<lambda>e. handle_of e = spi inst) (es1 @ es2)"
    using 1(4) 2(4) by (simp add: inst2_def)
  with sw wr show ?thesis by blast
qed

lemma CONFIGURE_Process:
  assumes "state inst = RADIO_STATE_CONFIGURE"
  shows "case RADIO_Process (Some inst) w of
      (io, w') \<Rightarrow>
        reg_writes (sent w w') = config_writes
        \<and> take (length (bus w)) (bus w') = bus w
        \<and> list_all (\<lambda>e. handle_of e = spi inst) (sent w w')
        \<and> map_option state io = Some RADIO_STATE_WAIT_CONF"
proof -
  from CONFIGURE_eq [OF assms, of w]
  obtain n es where "RADIO_Process_switch inst w =
      (inst\<lparr>idx := tick w + CONFIGURATION_DELAY, nextAR := 0, state := RADIO_STATE_WAIT_CONF\<rparr>,
       w\<lparr>nx := n, bus := bus w @ es\<rparr>)"
    "reg_writes es = config_writes" "list_all (\<lambda>e. handle_of e = spi inst) es"
    by (elim exE conjE)
  then show ?thesis
    by (simp add: RADIO_Process_def sent_def)
qed

text \<open>
  C8. Every call in CONFIGURE makes the same register writes, the list
  \<open>config_writes\<close>, whatever the instance and the device: they go to the bus of the
  instance, and the reads of the register dump that follow write nothing. In
  particular, after a ranging error has sent the instance from WAIT_AR to CONFIGURE, the
  next call writes that same list.
\<close>

theorem CONFIGURE_writes_fixed:
  "(state inst = RADIO_STATE_CONFIGURE \<longrightarrow>
      (case RADIO_Process (Some inst) w of
         (io, w') \<Rightarrow>
           reg_writes (sent w w') = config_writes
           \<and> take (length (bus w)) (bus w') = bus w
           \<and> list_all (\<lambda>e. handle_of e = spi inst) (sent w w')
           \<and> map_option state io = Some RADIO_STATE_WAIT_CONF))
   \<and> (state i = RADIO_STATE_WAIT_AR \<and> bit (miso v (nx v + 1)) 5 \<longrightarrow>
      (case RADIO_Process (Some i) v of
         (io1, v1) \<Rightarrow>
           (case RADIO_Process io1 (v1\<lparr>tick := t\<rparr>) of
              (io2, v2) \<Rightarrow>
                map_option state io1 = Some RADIO_STATE_CONFIGURE
                \<and> reg_writes (sent v1 v2) = config_writes
                \<and> map_option state io2 = Some RADIO_STATE_WAIT_CONF)))"
proof (intro conjI impI)
  assume "state inst = RADIO_STATE_CONFIGURE"
  then show "case RADIO_Process (Some inst) w of
      (io, w') \<Rightarrow>
        reg_writes (sent w w') = config_writes
        \<and> take (length (bus w)) (bus w') = bus w
        \<and> list_all (\<lambda>e. handle_of e = spi inst) (sent w w')
        \<and> map_option state io = Some RADIO_STATE_WAIT_CONF"
    by (rule CONFIGURE_Process)
next
  assume a: "state i = RADIO_STATE_WAIT_AR \<and> bit (miso v (nx v + 1)) 5"
  define i1 where "i1 = i\<lparr>state := RADIO_STATE_CONFIGURE\<rparr>"
  define v1 where "v1 = v\<lparr>nx := nx v + 2,
      bus := bus v @ read_txn (spi i) ADDR_PLLRANGING (miso v (nx v)) (miso v (nx v + 1))\<rparr>"
  have 1: "RADIO_Process (Some i) v = (Some i1, v1)"
    using a by (simp add: RADIO_Process_def WAIT_AR_eq Let_def i1_def v1_def)
  have "state i1 = RADIO_STATE_CONFIGURE"
    by (simp add: i1_def)
  from CONFIGURE_Process [OF this, of "v1\<lparr>tick := t\<rparr>"]
  have 2: "case RADIO_Process (Some i1) (v1\<lparr>tick := t\<rparr>) of
      (io2, v2) \<Rightarrow> reg_writes (sent v1 v2) = config_writes
        \<and> map_option state io2 = Some RADIO_STATE_WAIT_CONF"
    by (simp add: sent_def split: prod.splits)
  show "case RADIO_Process (Some i) v of
      (io1, v1) \<Rightarrow>
        (case RADIO_Process io1 (v1\<lparr>tick := t\<rparr>) of
           (io2, v2) \<Rightarrow>
             map_option state io1 = Some RADIO_STATE_CONFIGURE
             \<and> reg_writes (sent v1 v2) = config_writes
             \<and> map_option state io2 = Some RADIO_STATE_WAIT_CONF)"
    using 2 by (simp add: 1 i1_def split: prod.splits)
qed

theorem CONFIGURE_writes_fixed_witness:
  "(case RADIO_Process (Some (example_inst RADIO_STATE_CONFIGURE 0)) (quiet_world 3) of
      (io, w') \<Rightarrow>
        reg_writes (sent (quiet_world 3) w') =
          [(0x02, 0x05), (0x03, 0x18), (0x2C, 0x29), (0x20, 0x19), (0x21, 0x60), (0x22, 0xC8),
           (0x23, 0xB5), (0x30, 0x0F), (0x25, 0x00), (0x26, 0x00), (0x27, 0x00), (0x31, 0x01),
           (0x32, 0x99), (0x33, 0x9A), (0x10, 0x06), (0x11, 0x00), (0x12, 0x00)]
        \<and> map_option state io = Some RADIO_STATE_WAIT_CONF)
   \<and> (case RADIO_Process (Some (example_inst RADIO_STATE_WAIT_AR 11)) (busy_world 12) of
      (io1, v1) \<Rightarrow>
        (case RADIO_Process io1 (v1\<lparr>tick := 13\<rparr>) of
           (io2, v2) \<Rightarrow>
             map_option state io1 = Some RADIO_STATE_CONFIGURE
             \<and> reg_writes (sent v1 v2) =
               [(0x02, 0x05), (0x03, 0x18), (0x2C, 0x29), (0x20, 0x19), (0x21, 0x60), (0x22, 0xC8),
                (0x23, 0xB5), (0x30, 0x0F), (0x25, 0x00), (0x26, 0x00), (0x27, 0x00), (0x31, 0x01),
                (0x32, 0x99), (0x33, 0x9A), (0x10, 0x06), (0x11, 0x00), (0x12, 0x00)]))"
proof -
  have 1: "state (example_inst RADIO_STATE_CONFIGURE 0) = RADIO_STATE_CONFIGURE"
    by (simp add: example_inst_def)
  have 2: "state (example_inst RADIO_STATE_WAIT_AR 11) = RADIO_STATE_WAIT_AR
      \<and> bit (miso (busy_world 12) (nx (busy_world 12) + 1)) 5"
    by (simp add: example_inst_def busy_world_def)
  from CONFIGURE_writes_fixed [of "example_inst RADIO_STATE_CONFIGURE 0" "quiet_world 3"
      "example_inst RADIO_STATE_WAIT_AR 11" "busy_world 12" 13] 1 2
  show ?thesis
    by (simp add: config_writes_def split: prod.splits)
qed

subsection \<open>WAIT_AR, and the restart after a ranging error\<close>

text \<open>
  C7. In WAIT_AR a call reads the PLL-ranging register. With the error bit (bit 5) set
  in the value read, the state becomes CONFIGURE and nothing else of the instance
  changes; otherwise, with the ranging-in-progress bit (bit 4) clear, the call writes
  the full-tx power mode, sets \<open>nextAR = now + AR_INTERVAL\<close> and
  \<open>idx = now + PREAMBLE_DURATION\<close> and moves to PREAMBLE; otherwise the instance is
  unchanged. A call ends in CONFIGURE only from WAIT_AR with the error bit set. After
  the error the whole configuration starts again: the next call, at any time \<open>t\<close> and
  whatever the device answers, writes the complete list \<open>config_writes\<close> and nothing
  else, sets \<open>idx = t + CONFIGURATION_DELAY\<close> and \<open>nextAR = 0\<close> and moves to WAIT_CONF,
  which is what the first call after \<open>RADIO_Init\<close> does.
\<close>

theorem WAIT_AR_step:
  assumes "state inst = RADIO_STATE_WAIT_AR"
  shows "RADIO_Process (Some inst) w =
     (let reg = miso w (nx w + 1);
          rd = read_txn (spi inst) ADDR_PLLRANGING (miso w (nx w)) reg
      in if bit reg 5
         then (Some (inst\<lparr>state := RADIO_STATE_CONFIGURE\<rparr>),
               w\<lparr>nx := nx w + 2, bus := bus w @ rd\<rparr>)
         else if \<not> bit reg 4
         then (Some (inst\<lparr>state := RADIO_STATE_PREAMBLE, nextAR := tick w + AR_INTERVAL,
                          idx := tick w + PREAMBLE_DURATION\<rparr>),
               w\<lparr>nx := nx w + 4,
                 bus := bus w @ rd @ write_txn (spi inst) ADDR_PWRMODE PWRMODE_FULLTX
                                        (miso w (nx w + 2)) (miso w (nx w + 3))\<rparr>)
         else (Some inst, w\<lparr>nx := nx w + 2, bus := bus w @ rd\<rparr>))
   \<and> ((\<exists>i'. fst (RADIO_Process (Some i) v) = Some i' \<and> state i' = RADIO_STATE_CONFIGURE) =
        (state i = RADIO_STATE_WAIT_AR \<and> bit (miso v (nx v + 1)) 5))
   \<and> map_option state (RADIO_Init (Some i) (Some h)) = Some RADIO_STATE_CONFIGURE
   \<and> (bit (miso w (nx w + 1)) 5 \<longrightarrow>
        (case RADIO_Process (Some inst) w of
           (io1, w1) \<Rightarrow>
             (case RADIO_Process io1 (w1\<lparr>tick := t\<rparr>) of
                (io2, w2) \<Rightarrow>
                  io1 = Some (inst\<lparr>state := RADIO_STATE_CONFIGURE\<rparr>)
                  \<and> io2 = Some (inst\<lparr>idx := t + CONFIGURATION_DELAY, nextAR := 0,
                                   state := RADIO_STATE_WAIT_CONF\<rparr>)
                  \<and> reg_writes (sent w1 w2) = config_writes
                  \<and> take (length (bus w1)) (bus w2) = bus w1
                  \<and> list_all (\<lambda>e. handle_of e = spi inst) (sent w1 w2))))
   \<and> (case RADIO_Process (RADIO_Init (Some i) (Some h)) (v\<lparr>tick := t\<rparr>) of
         (io, v') \<Rightarrow>
           io = Some (i\<lparr>spi := h, len := 0, idx := t + CONFIGURATION_DELAY, nextAR := 0,
                        state := RADIO_STATE_WAIT_CONF\<rparr>)
           \<and> reg_writes (sent v v') = config_writes)"
proof -
  have c1: "RADIO_Process (Some inst) w =
     (let reg = miso w (nx w + 1);
          rd = read_txn (spi inst) ADDR_PLLRANGING (miso w (nx w)) reg
      in if bit reg 5
         then (Some (inst\<lparr>state := RADIO_STATE_CONFIGURE\<rparr>),
               w\<lparr>nx := nx w + 2, bus := bus w @ rd\<rparr>)
         else if \<not> bit reg 4
         then (Some (inst\<lparr>state := RADIO_STATE_PREAMBLE, nextAR := tick w + AR_INTERVAL,
                          idx := tick w + PREAMBLE_DURATION\<rparr>),
               w\<lparr>nx := nx w + 4,
                 bus := bus w @ rd @ write_txn (spi inst) ADDR_PWRMODE PWRMODE_FULLTX
                                        (miso w (nx w + 2)) (miso w (nx w + 3))\<rparr>)
         else (Some inst, w\<lparr>nx := nx w + 2, bus := bus w @ rd\<rparr>))"
    using assms by (simp add: RADIO_Process_def WAIT_AR_eq Let_def)
  have "(\<exists>i'. fst (RADIO_Process (Some i) v) = Some i' \<and> state i' = RADIO_STATE_CONFIGURE) =
      (state (fst (RADIO_Process_switch i v)) = RADIO_STATE_CONFIGURE)"
    by (simp add: RADIO_Process_def split: prod.splits)
  then have c2: "(\<exists>i'. fst (RADIO_Process (Some i) v) = Some i' \<and> state i' = RADIO_STATE_CONFIGURE) =
      (state i = RADIO_STATE_WAIT_AR \<and> bit (miso v (nx v + 1)) 5)"
    by (simp add: enters_CONFIGURE)
  have c3: "map_option state (RADIO_Init (Some i) (Some h)) = Some RADIO_STATE_CONFIGURE"
    by (simp add: RADIO_Init_def)
  have c4: "bit (miso w (nx w + 1)) 5 \<longrightarrow>
        (case RADIO_Process (Some inst) w of
           (io1, w1) \<Rightarrow>
             (case RADIO_Process io1 (w1\<lparr>tick := t\<rparr>) of
                (io2, w2) \<Rightarrow>
                  io1 = Some (inst\<lparr>state := RADIO_STATE_CONFIGURE\<rparr>)
                  \<and> io2 = Some (inst\<lparr>idx := t + CONFIGURATION_DELAY, nextAR := 0,
                                   state := RADIO_STATE_WAIT_CONF\<rparr>)
                  \<and> reg_writes (sent w1 w2) = config_writes
                  \<and> take (length (bus w1)) (bus w2) = bus w1
                  \<and> list_all (\<lambda>e. handle_of e = spi inst) (sent w1 w2)))"
  proof
    assume b: "bit (miso w (nx w + 1)) 5"
    define i1 where "i1 = inst\<lparr>state := RADIO_STATE_CONFIGURE\<rparr>"
    define w1 where "w1 = w\<lparr>nx := nx w + 2,
        bus := bus w @ read_txn (spi inst) ADDR_PLLRANGING (miso w (nx w)) (miso w (nx w + 1))\<rparr>"
    have 1: "RADIO_Process (Some inst) w = (Some i1, w1)"
      using assms b by (simp add: RADIO_Process_def WAIT_AR_eq Let_def i1_def w1_def)
    have "state i1 = RADIO_STATE_CONFIGURE"
      by (simp add: i1_def)
    from CONFIGURE_eq [OF this, of "w1\<lparr>tick := t\<rparr>"]
    obtain n es where 2: "RADIO_Process_switch i1 (w1\<lparr>tick := t\<rparr>) =
        (i1\<lparr>idx := tick (w1\<lparr>tick := t\<rparr>) + CONFIGURATION_DELAY, nextAR := 0,
            state := RADIO_STATE_WAIT_CONF\<rparr>,
         w1\<lparr>tick := t, nx := n, bus := bus (w1\<lparr>tick := t\<rparr>) @ es\<rparr>)"
      "reg_writes es = config_writes" "list_all (\<lambda>e. handle_of e = spi i1) es"
      by (elim exE conjE)
    show "case RADIO_Process (Some inst) w of
           (io1, w1) \<Rightarrow>
             (case RADIO_Process io1 (w1\<lparr>tick := t\<rparr>) of
                (io2, w2) \<Rightarrow>
                  io1 = Some (inst\<lparr>state := RADIO_STATE_CONFIGURE\<rparr>)
                  \<and> io2 = Some (inst\<lparr>idx := t + CONFIGURATION_DELAY, nextAR := 0,
                                   state := RADIO_STATE_WAIT_CONF\<rparr>)
                  \<and> reg_writes (sent w1 w2) = config_writes
                  \<and> take (length (bus w1)) (bus w2) = bus w1
                  \<and> list_all (\<lambda>e. handle_of e = spi inst) (sent w1 w2))"
      unfolding 1 using 2(2,3)
      by (simp add: RADIO_Process_def 2(1) sent_def) (simp add: i1_def)
  qed
  have c5: "case RADIO_Process (RADIO_Init (Some i) (Some h)) (v\<lparr>tick := t\<rparr>) of
         (io, v') \<Rightarrow>
           io = Some (i\<lparr>spi := h, len := 0, idx := t + CONFIGURATION_DELAY, nextAR := 0,
                        state := RADIO_STATE_WAIT_CONF\<rparr>)
           \<and> reg_writes (sent v v') = config_writes"
  proof -
    define i0 where "i0 = i\<lparr>spi := h, len := 0, idx := 0, state := RADIO_STATE_CONFIGURE\<rparr>"
    have 1: "RADIO_Init (Some i) (Some h) = Some i0"
      by (simp add: RADIO_Init_def i0_def)
    have "state i0 = RADIO_STATE_CONFIGURE"
      by (simp add: i0_def)
    from CONFIGURE_eq [OF this, of "v\<lparr>tick := t\<rparr>"]
    obtain n es where 2: "RADIO_Process_switch i0 (v\<lparr>tick := t\<rparr>) =
        (i0\<lparr>idx := tick (v\<lparr>tick := t\<rparr>) + CONFIGURATION_DELAY, nextAR := 0,
            state := RADIO_STATE_WAIT_CONF\<rparr>,
         v\<lparr>tick := t, nx := n, bus := bus (v\<lparr>tick := t\<rparr>) @ es\<rparr>)"
      "reg_writes es = config_writes"
      by (elim exE conjE)
    show ?thesis
      unfolding 1 using 2(2)
      by (simp add: RADIO_Process_def 2(1) sent_def) (simp add: i0_def)
  qed
  from c1 c2 c3 c4 c5 show ?thesis
    by (intro conjI)
qed

theorem WAIT_AR_step_witness:
  "RADIO_Process (Some (example_inst RADIO_STATE_WAIT_AR 11)) (busy_world 12) =
     (Some (example_inst RADIO_STATE_CONFIGURE 11),
      \<lparr>tick = 12, miso = (\<lambda>k. 0xFF), nx = 2,
        bus = [CS_Enable 1, WriteRead 1 0x2D 0xFF, WriteRead 1 0xFF 0xFF, CS_Disable 1]\<rparr>)
   \<and> RADIO_Process (Some (example_inst RADIO_STATE_WAIT_AR 11)) (quiet_world 12) =
     (Some ((example_inst RADIO_STATE_PREAMBLE 172)\<lparr>nextAR := 300012\<rparr>),
      \<lparr>tick = 12, miso = (\<lambda>k. 0), nx = 4,
        bus = [CS_Enable 1, WriteRead 1 0x2D 0, WriteRead 1 0xFF 0, CS_Disable 1,
               CS_Enable 1, WriteRead 1 0x82 0, WriteRead 1 0x0D 0, CS_Disable 1]\<rparr>)
   \<and> (case RADIO_Process (Some (example_inst RADIO_STATE_WAIT_AR 11)) (busy_world 12) of
        (io1, w1) \<Rightarrow>
          (case RADIO_Process io1 (w1\<lparr>tick := 13\<rparr>) of
             (io2, w2) \<Rightarrow>
               io2 = Some (example_inst RADIO_STATE_WAIT_CONF 18)
               \<and> reg_writes (sent w1 w2) =
                 [(0x02, 0x05), (0x03, 0x18), (0x2C, 0x29), (0x20, 0x19), (0x21, 0x60),
                  (0x22, 0xC8), (0x23, 0xB5), (0x30, 0x0F), (0x25, 0x00), (0x26, 0x00),
                  (0x27, 0x00), (0x31, 0x01), (0x32, 0x99), (0x33, 0x9A), (0x10, 0x06),
                  (0x11, 0x00), (0x12, 0x00)]))"
proof -
  have 1: "state (example_inst RADIO_STATE_WAIT_AR 11) = RADIO_STATE_WAIT_AR"
    by (simp add: example_inst_def)
  have 2: "bit (miso (busy_world 12) (nx (busy_world 12) + 1)) 5"
    by (simp add: busy_world_def)
  note a = WAIT_AR_step [OF 1, where w = "busy_world 12" and t = 13]
  note b = WAIT_AR_step [OF 1, where w = "quiet_world 12"]
  have 3: "RADIO_Process (Some (example_inst RADIO_STATE_WAIT_AR 11)) (busy_world 12) =
     (Some (example_inst RADIO_STATE_CONFIGURE 11),
      \<lparr>tick = 12, miso = (\<lambda>k. 0xFF), nx = 2,
        bus = [CS_Enable 1, WriteRead 1 0x2D 0xFF, WriteRead 1 0xFF 0xFF, CS_Disable 1]\<rparr>)"
    using a [THEN conjunct1]
    by (simp add: example_inst_def busy_world_def read_txn_def Let_def)
  have 4: "RADIO_Process (Some (example_inst RADIO_STATE_WAIT_AR 11)) (quiet_world 12) =
     (Some ((example_inst RADIO_STATE_PREAMBLE 172)\<lparr>nextAR := 300012\<rparr>),
      \<lparr>tick = 12, miso = (\<lambda>k. 0), nx = 4,
        bus = [CS_Enable 1, WriteRead 1 0x2D 0, WriteRead 1 0xFF 0, CS_Disable 1,
               CS_Enable 1, WriteRead 1 0x82 0, WriteRead 1 0x0D 0, CS_Disable 1]\<rparr>)"
    using b [THEN conjunct1]
    by (simp add: example_inst_def quiet_world_def write_txn_def read_txn_def Let_def)
  have 5: "case RADIO_Process (Some (example_inst RADIO_STATE_WAIT_AR 11)) (busy_world 12) of
        (io1, w1) \<Rightarrow>
          (case RADIO_Process io1 (w1\<lparr>tick := 13\<rparr>) of
             (io2, w2) \<Rightarrow>
               io2 = Some (example_inst RADIO_STATE_WAIT_CONF 18)
               \<and> reg_writes (sent w1 w2) =
                 [(0x02, 0x05), (0x03, 0x18), (0x2C, 0x29), (0x20, 0x19), (0x21, 0x60),
                  (0x22, 0xC8), (0x23, 0xB5), (0x30, 0x0F), (0x25, 0x00), (0x26, 0x00),
                  (0x27, 0x00), (0x31, 0x01), (0x32, 0x99), (0x33, 0x9A), (0x10, 0x06),
                  (0x11, 0x00), (0x12, 0x00)])"
    using a [THEN conjunct2, THEN conjunct2, THEN conjunct2, THEN conjunct1, rule_format, OF 2]
    by (simp add: config_writes_def example_inst_def split: prod.splits)
  from 3 4 5 show ?thesis
    by (intro conjI)
qed

subsection \<open>PREAMBLE\<close>

lemma PREAMBLE_eq:
  "state inst = RADIO_STATE_PREAMBLE \<Longrightarrow>
   RADIO_Process_switch inst w =
     (if tick w < idx inst
      then (inst, w\<lparr>nx := nx w + 2,
                    bus := bus w @ write_txn (spi inst) ADDR_FIFODATA PREAMBLE_MSG
                                     (miso w (nx w)) (miso w (nx w + 1))\<rparr>)
      else (inst\<lparr>idx := 0, state := RADIO_STATE_FRAME\<rparr>, w))"
  by (simp add: RADIO_Process_switch_def HAL_GetTick_def SetReg_eq)

text \<open>
  C9, as amended. In PREAMBLE, a call with \<open>now < idx\<close> makes one register write: the
  byte \<open>PREAMBLE_MSG\<close> (0x55) to the FIFO-data register, directly, without the symbol
  encoder and without looking at the FIFO-full flag; the instance is unchanged. A call
  with \<open>now \<ge> idx\<close> makes no bus operation, resets \<open>idx\<close> to 0 and moves to FRAME.
\<close>

theorem PREAMBLE_step:
  "state inst = RADIO_STATE_PREAMBLE \<Longrightarrow>
   RADIO_Process (Some inst) w =
     (if tick w < idx inst
      then (Some inst,
            w\<lparr>nx := nx w + 2,
              bus := bus w @ write_txn (spi inst) ADDR_FIFODATA PREAMBLE_MSG
                               (miso w (nx w)) (miso w (nx w + 1))\<rparr>)
      else (Some (inst\<lparr>idx := 0, state := RADIO_STATE_FRAME\<rparr>), w))"
  by (simp add: RADIO_Process_def PREAMBLE_eq)

theorem PREAMBLE_step_witness:
  "RADIO_Process (Some (example_inst RADIO_STATE_PREAMBLE 100)) (busy_world 50) =
     (Some (example_inst RADIO_STATE_PREAMBLE 100),
      \<lparr>tick = 50, miso = (\<lambda>k. 0xFF), nx = 2,
        bus = [CS_Enable 1, WriteRead 1 0x85 0xFF, WriteRead 1 0x55 0xFF, CS_Disable 1]\<rparr>)
   \<and> RADIO_Process (Some (example_inst RADIO_STATE_PREAMBLE 100)) (busy_world 100) =
     (Some (example_inst RADIO_STATE_FRAME 0), busy_world 100)"
  using PREAMBLE_step [of "example_inst RADIO_STATE_PREAMBLE 100" "busy_world 50"]
    PREAMBLE_step [of "example_inst RADIO_STATE_PREAMBLE 100" "busy_world 100"]
  by (simp add: example_inst_def busy_world_def write_txn_def)

text \<open>
  C9 as stated fails: the claim has the preamble byte pushed through the symbol encoder
  as 8 symbol attempts. Every call of \<open>Transmit10\<close> writes the FIFO-control register
  once, so \<open>symbol_attempts\<close> counts the attempts. A PREAMBLE call before the deadline,
  on a device whose FIFO is never full, makes no attempt at all: its only register write
  is \<open>(FIFO-data, 0x55)\<close>.
\<close>

theorem PREAMBLE_eight_symbols_counterexample:
  "state (example_inst RADIO_STATE_PREAMBLE 100) = RADIO_STATE_PREAMBLE
   \<and> tick (quiet_world 50) < idx (example_inst RADIO_STATE_PREAMBLE 100)
   \<and> symbol_attempts (sent (quiet_world 50)
        (snd (RADIO_Process (Some (example_inst RADIO_STATE_PREAMBLE 100)) (quiet_world 50)))) \<noteq> 8
   \<and> reg_writes (sent (quiet_world 50)
        (snd (RADIO_Process (Some (example_inst RADIO_STATE_PREAMBLE 100)) (quiet_world 50))))
      = [(ADDR_FIFODATA, PREAMBLE_MSG)]"
  by (simp add: RADIO_Process_def PREAMBLE_eq example_inst_def quiet_world_def write_txn_def
      sent_def symbol_attempts_def reg_writes_def)

subsection \<open>FRAME\<close>

lemma ucast_len_less: "(i < (ucast (l :: 16 word) :: 32 word)) = (unat i < unat l)"
proof -
  have "unat (ucast l :: 32 word) = take_bit 32 (unat l)"
    by (simp add: unsigned_ucast_eq)
  moreover have "unat l < 2 ^ 16"
    using unsigned_less [of l] by simp
  then have "unat l < 2 ^ 32"
    by simp
  ultimately have "unat (ucast l :: 32 word) = unat l"
    by (simp add: take_bit_nat_eq_self)
  then show ?thesis
    by (simp add: word_less_nat_alt)
qed


lemma FRAME_loop_push:
  "unat (len inst) \<le> length (frame inst) \<Longrightarrow>
   FRAME_loop inst w =
     (case push_bytes inst (drop (unat (idx inst)) (take (unat (len inst)) (frame inst))) w of
        (k, w') \<Rightarrow> (inst\<lparr>idx := idx inst + of_nat k\<rparr>, w'))"
proof (induction inst w rule: FRAME_loop.induct)
  case (1 inst w)
  show ?case
  proof (cases "idx inst < ucast (len inst)")
    case False
    then have "unat (len inst) \<le> unat (idx inst)"
      by (simp add: ucast_len_less)
    with False show ?thesis
      by (simp add: FRAME_loop.simps [of inst w])
  next
    case True
    then have lt: "unat (idx inst) < unat (len inst)"
      by (simp add: ucast_len_less)
    let ?b = "frame inst ! unat (idx inst)"
    have bs: "drop (unat (idx inst)) (take (unat (len inst)) (frame inst)) =
        ?b # drop (Suc (unat (idx inst))) (take (unat (len inst)) (frame inst))"
      using lt "1.prems" by (simp add: Cons_nth_drop_Suc [symmetric])
    have suc: "unat (idx inst + 1) = Suc (unat (idx inst))"
    proof -
      from True have "Suc (unat (idx inst)) \<le> unat (ucast (len inst) :: 32 word)"
        by (simp add: word_less_nat_alt)
      also have "unat (ucast (len inst) :: 32 word) < 2 ^ LENGTH(32)"
        by (rule unsigned_less)
      finally have "unat (idx inst) + unat (1 :: 32 word) < 2 ^ LENGTH(32)"
        by simp
      then have "unat (idx inst + 1) = unat (idx inst) + unat (1 :: 32 word)"
        by (simp only: unat_add_lem)
      then show ?thesis by simp
    qed
    obtain r w1 where t: "Transmit10 inst ?b w = (r, w1)"
      by (cases "Transmit10 inst ?b w")
    show ?thesis
    proof (cases "r = 0")
      case True
      with \<open>idx inst < ucast (len inst)\<close> t bs show ?thesis
        by (simp add: FRAME_loop.simps [of inst w])
    next
      case False
      have prems': "unat (len (inst\<lparr>idx := idx inst + 1\<rparr>)) \<le> length (frame (inst\<lparr>idx := idx inst + 1\<rparr>))"
        using "1.prems" by simp
      have t': "Transmit10 (inst\<lparr>idx := x\<rparr>) b v = Transmit10 inst b v" for x b v
        by (simp add: Transmit10_eq)
      have pb: "push_bytes (inst\<lparr>idx := x\<rparr>) cs v = push_bytes inst cs v" for x cs v
        by (induction cs arbitrary: v) (simp_all add: t' split: prod.splits)
      from "1.IH" [OF True t [symmetric] False prems'] True t False bs show ?thesis
        by (simp add: FRAME_loop.simps [of inst w] suc pb split: prod.splits)
    qed
  qed
qed

text \<open>
  C6. In FRAME, a call with \<open>idx \<ge> len\<close> resets \<open>idx\<close> to 0 and moves to POSTAMBLE
  without any bus operation. A call with \<open>idx < len\<close> pushes the frame bytes from
  position \<open>idx\<close> on through \<open>Transmit10\<close>, as \<open>push_bytes\<close> does: when \<open>k\<close> symbols
  were accepted before the first rejection (or the end of the frame), the cursor is
  \<open>idx + k\<close>, the accepted register writes are those of the symbols of the first \<open>k\<close>
  remaining bytes, one more attempt was made exactly when a byte was left, and the
  bytes that remain for the next call are the remaining bytes without the first \<open>k\<close>:
  the rejected byte comes first in the next call and no byte is skipped. One symbol
  is sent for each frame byte.
\<close>

theorem FRAME_step:
  assumes "state inst = RADIO_STATE_FRAME" and "unat (len inst) \<le> length (frame inst)"
  shows "RADIO_Process (Some inst) w =
     (if ucast (len inst) \<le> idx inst
      then (Some (inst\<lparr>state := RADIO_STATE_POSTAMBLE, idx := 0\<rparr>), w)
      else (case push_bytes inst (drop (unat (idx inst)) (take (unat (len inst)) (frame inst))) w of
              (k, w') \<Rightarrow> (Some (inst\<lparr>idx := idx inst + of_nat k\<rparr>), w')))
   \<and> (case push_bytes inst (drop (unat (idx inst)) (take (unat (len inst)) (frame inst))) w of
        (k, w') \<Rightarrow>
          k \<le> unat (len inst) - unat (idx inst)
          \<and> accepted_writes (sent w w') =
              concat (map symbol_writes
                (take k (drop (unat (idx inst)) (take (unat (len inst)) (frame inst)))))
          \<and> symbol_attempts (sent w w') =
              (if k < unat (len inst) - unat (idx inst) then Suc k else k)
          \<and> drop (unat (idx inst + of_nat k)) (take (unat (len inst)) (frame inst)) =
              drop k (drop (unat (idx inst)) (take (unat (len inst)) (frame inst))))"
proof -
  let ?bs = "drop (unat (idx inst)) (take (unat (len inst)) (frame inst))"
  have lb: "length ?bs = unat (len inst) - unat (idx inst)"
    using assms(2) by simp
  obtain k w' where pb: "push_bytes inst ?bs w = (k, w')"
    by (cases "push_bytes inst ?bs w")
  from push_bytes_sent [where inst = inst and bs = ?bs and w = w] pb lb
  have k: "k \<le> unat (len inst) - unat (idx inst)"
    and acc: "accepted_writes (sent w w') = concat (map symbol_writes (take k ?bs))"
    and att: "symbol_attempts (sent w w') =
        (if k < unat (len inst) - unat (idx inst) then Suc k else k)"
    by simp_all
  have "unat (idx inst + of_nat k) = unat (idx inst) + k"
  proof (cases "k = 0")
    case True
    then show ?thesis by simp
  next
    case False
    with k have "unat (idx inst) + k \<le> unat (len inst)" by simp
    also have "unat (len inst) < 2 ^ 16"
      using unsigned_less [of "len inst"] by simp
    finally have b: "unat (idx inst) + k < 2 ^ 32" by simp
    then have "k < 2 ^ 32" by simp
    then have "unat (of_nat k :: 32 word) = k"
      by (simp add: unat_of_nat)
    with b have "unat (idx inst) + unat (of_nat k :: 32 word) < 2 ^ LENGTH(32)"
      by simp
    then have "unat (idx inst + of_nat k) = unat (idx inst) + unat (of_nat k :: 32 word)"
      by (simp only: unat_add_lem)
    with \<open>unat (of_nat k :: 32 word) = k\<close> show ?thesis by simp
  qed
  then have res: "drop (unat (idx inst + of_nat k)) (take (unat (len inst)) (frame inst)) =
      drop k ?bs"
    by (simp add: add.commute)
  have le: "(ucast (len inst) \<le> idx inst) = (\<not> idx inst < ucast (len inst))"
    by (simp add: not_less)
  have "RADIO_Process (Some inst) w =
     (if ucast (len inst) \<le> idx inst
      then (Some (inst\<lparr>state := RADIO_STATE_POSTAMBLE, idx := 0\<rparr>), w)
      else (Some (inst\<lparr>idx := idx inst + of_nat k\<rparr>), w'))"
    using assms by (simp add: RADIO_Process_def RADIO_Process_switch_def FRAME_loop_push pb)
  with k acc att res show ?thesis
    by (simp add: pb)
qed

theorem FRAME_step_witness:
  "RADIO_Process (Some (example_inst RADIO_STATE_FRAME 0)) (quiet_world 9) =
     (Some (example_inst RADIO_STATE_FRAME 3),
      \<lparr>tick = 9, miso = (\<lambda>k. 0), nx = 12,
        bus = [CS_Enable 1, WriteRead 1 0x84 0, WriteRead 1 0x03 0, CS_Disable 1,
               CS_Enable 1, WriteRead 1 0x85 0, WriteRead 1 0x69 0, CS_Disable 1,
               CS_Enable 1, WriteRead 1 0x84 0, WriteRead 1 0x00 0, CS_Disable 1,
               CS_Enable 1, WriteRead 1 0x85 0, WriteRead 1 0x97 0, CS_Disable 1,
               CS_Enable 1, WriteRead 1 0x84 0, WriteRead 1 0x03 0, CS_Disable 1,
               CS_Enable 1, WriteRead 1 0x85 0, WriteRead 1 0x69 0, CS_Disable 1]\<rparr>)
   \<and> RADIO_Process (Some (example_inst RADIO_STATE_FRAME 0)) (fifo_world (\<lambda>k. 4 \<le> k) 9) =
     (Some (example_inst RADIO_STATE_FRAME 1),
      \<lparr>tick = 9, miso = (\<lambda>k. if 4 \<le> k then 0x08 else 0), nx = 6,
        bus = [CS_Enable 1, WriteRead 1 0x84 0, WriteRead 1 0x03 0, CS_Disable 1,
               CS_Enable 1, WriteRead 1 0x85 0, WriteRead 1 0x69 0, CS_Disable 1,
               CS_Enable 1, WriteRead 1 0x84 0x08, WriteRead 1 0x00 0x08, CS_Disable 1]\<rparr>)
   \<and> RADIO_Process (Some (example_inst RADIO_STATE_FRAME 2)) (busy_world 9) =
     (Some (example_inst RADIO_STATE_FRAME 2),
      \<lparr>tick = 9, miso = (\<lambda>k. 0xFF), nx = 2,
        bus = [CS_Enable 1, WriteRead 1 0x84 0xFF, WriteRead 1 0x03 0xFF, CS_Disable 1]\<rparr>)
   \<and> RADIO_Process (Some (example_inst RADIO_STATE_FRAME 3)) (busy_world 9) =
     (Some (example_inst RADIO_STATE_POSTAMBLE 0), busy_world 9)"
proof -
  have a: "RADIO_Process (Some (example_inst RADIO_STATE_FRAME 0)) (quiet_world 9) =
     (Some (example_inst RADIO_STATE_FRAME 3),
      \<lparr>tick = 9, miso = (\<lambda>k. 0), nx = 12,
        bus = [CS_Enable 1, WriteRead 1 0x84 0, WriteRead 1 0x03 0, CS_Disable 1,
               CS_Enable 1, WriteRead 1 0x85 0, WriteRead 1 0x69 0, CS_Disable 1,
               CS_Enable 1, WriteRead 1 0x84 0, WriteRead 1 0x00 0, CS_Disable 1,
               CS_Enable 1, WriteRead 1 0x85 0, WriteRead 1 0x97 0, CS_Disable 1,
               CS_Enable 1, WriteRead 1 0x84 0, WriteRead 1 0x03 0, CS_Disable 1,
               CS_Enable 1, WriteRead 1 0x85 0, WriteRead 1 0x69 0, CS_Disable 1]\<rparr>)"
    using FRAME_step [of "example_inst RADIO_STATE_FRAME 0" "quiet_world 9", THEN conjunct1]
    by (simp add: example_inst_def quiet_world_def Transmit10_eq write_txn_def)
  have b: "RADIO_Process (Some (example_inst RADIO_STATE_FRAME 0)) (fifo_world (\<lambda>k. 4 \<le> k) 9) =
     (Some (example_inst RADIO_STATE_FRAME 1),
      \<lparr>tick = 9, miso = (\<lambda>k. if 4 \<le> k then 0x08 else 0), nx = 6,
        bus = [CS_Enable 1, WriteRead 1 0x84 0, WriteRead 1 0x03 0, CS_Disable 1,
               CS_Enable 1, WriteRead 1 0x85 0, WriteRead 1 0x69 0, CS_Disable 1,
               CS_Enable 1, WriteRead 1 0x84 0x08, WriteRead 1 0x00 0x08, CS_Disable 1]\<rparr>)"
    using FRAME_step [of "example_inst RADIO_STATE_FRAME 0" "fifo_world (\<lambda>k. 4 \<le> k) 9",
        THEN conjunct1]
    by (simp add: example_inst_def fifo_world_def Transmit10_eq write_txn_def)
  have c: "RADIO_Process (Some (example_inst RADIO_STATE_FRAME 2)) (busy_world 9) =
     (Some (example_inst RADIO_STATE_FRAME 2),
      \<lparr>tick = 9, miso = (\<lambda>k. 0xFF), nx = 2,
        bus = [CS_Enable 1, WriteRead 1 0x84 0xFF, WriteRead 1 0x03 0xFF, CS_Disable 1]\<rparr>)"
    using FRAME_step [of "example_inst RADIO_STATE_FRAME 2" "busy_world 9", THEN conjunct1]
    by (simp add: example_inst_def busy_world_def Transmit10_eq write_txn_def)
  have d: "RADIO_Process (Some (example_inst RADIO_STATE_FRAME 3)) (busy_world 9) =
     (Some (example_inst RADIO_STATE_POSTAMBLE 0), busy_world 9)"
    using FRAME_step [of "example_inst RADIO_STATE_FRAME 3" "busy_world 9", THEN conjunct1]
    by (simp add: example_inst_def busy_world_def)
  from a b c d show ?thesis by (intro conjI)
qed

subsection \<open>START_TX and POSTAMBLE\<close>



section \<open>Runs from RADIO_Init\<close>

lemma word_less_pos: "a < b \<Longrightarrow> 0 < b" for a b :: "32 word"
  by (metis not_less_iff_gr_or_eq word_gt_0 word_not_simps(1))

lemma never_ranged_Process:
  assumes "never_ranged (Some i)"
  shows "never_ranged (Some (fst (RADIO_Process_switch i w)))"
proof (cases "state i")
  case RADIO_STATE_CONFIGURE
  from CONFIGURE_eq [OF this, of w] show ?thesis
    by (auto simp add: never_ranged_def)
next
  case RADIO_STATE_WAIT_AR
  with assms show ?thesis by (simp add: never_ranged_def)
next
  case RADIO_STATE_WAIT_TX
  with assms have z: "nextAR i = 0" by (simp add: never_ranged_def)
  have "idx i < tick w \<Longrightarrow> 0 < tick w"
    by (rule word_less_pos)
  with RADIO_STATE_WAIT_TX z show ?thesis
    by (auto simp add: never_ranged_def RADIO_Process_switch_def HAL_GetTick_def Let_def)
next
  case RADIO_STATE_FRAME
  from FRAME_loop_only_idx [of i w] obtain x w' where "FRAME_loop i w = (i\<lparr>idx := x\<rparr>, w')"
    by (elim exE)
  with RADIO_STATE_FRAME assms show ?thesis
    by (simp add: never_ranged_def RADIO_Process_switch_def)
qed (use assms in \<open>simp_all add: never_ranged_def RADIO_Process_switch_def Let_def\<close>)

lemma never_ranged_step: "never_ranged (fst s) \<Longrightarrow> never_ranged (fst (host_step cap c s))"
proof (cases s)
  case (Pair io w)
  assume a: "never_ranged (fst s)"
  show ?thesis
  proof (cases io)
    case None
    with Pair show ?thesis
      by (cases c) (simp_all add: RADIO_Process_def RADIO_SetFrame_def never_ranged_def)
  next
    case (Some i)
    show ?thesis
    proof (cases c)
      case (Call_Process t)
      from a Pair Some have "never_ranged (Some i)" by simp
      from never_ranged_Process [OF this, of "w\<lparr>tick := t\<rparr>"] Pair Some Call_Process
      show ?thesis
        by (simp add: RADIO_Process_Some)
    next
      case (Call_SetFrame d l)
      with a Pair Some show ?thesis
        by (auto simp add: RADIO_SetFrame_def never_ranged_def split: option.splits)
    qed
  qed
qed

lemma never_ranged_host: "never_ranged (fst s) \<Longrightarrow> never_ranged (fst (host cap calls s))"
  by (induction calls arbitrary: s) (simp_all add: never_ranged_step)

text \<open>
  C1 says that the first transmission after CONFIGURE always passes through WAIT_AR and
  that later ones skip ranging until \<open>AR_INTERVAL\<close> has passed. The code does not do
  that. \<open>RADIO_Process\<close> sets \<open>nextAR = 0\<close> in CONFIGURE, and in WAIT_TX it ranges only
  when \<open>now \<le> nextAR\<close>, while leaving WAIT_TX needs \<open>now > idx \<ge> 0\<close>. So whatever the
  host calls after \<open>RADIO_Init\<close> and whatever the clock and the device do, no call ever
  ends in WAIT_AR: the first transmission, and every later one, goes from WAIT_TX to
  PREAMBLE without ranging.
\<close>

theorem Init_never_ranges:
  "map_option state (fst (host cap calls (RADIO_Init (Some i) (Some h), w)))
     \<noteq> Some RADIO_STATE_WAIT_AR"
proof -
  have "never_ranged (fst (RADIO_Init (Some i) (Some h), w))"
    by (simp add: RADIO_Init_def never_ranged_def)
  then have "never_ranged (fst (host cap calls (RADIO_Init (Some i) (Some h), w)))"
    by (rule never_ranged_host)
  then show ?thesis
    by (auto simp add: never_ranged_def split: option.splits)
qed

text \<open>
  C1, at a concrete run: the first transmission after \<open>RADIO_Init\<close>, on a device that
  answers 0 to every transfer. The states after each call, and every register write
  made: the PLL-ranging register is never written.
\<close>

theorem Init_never_ranges_witness:
  "map (\<lambda>n. map_option state (fst (host 4 (take n first_transmission)
          (RADIO_Init (Some ((example_inst RADIO_STATE_FRAME 77)\<lparr>nextAR := 999\<rparr>)) (Some 1),
           quiet_world 0))))
     [0, 1, 2, 3, 4, 5]
   = [Some RADIO_STATE_CONFIGURE, Some RADIO_STATE_WAIT_CONF, Some RADIO_STATE_IDLE,
      Some RADIO_STATE_START_TX, Some RADIO_STATE_WAIT_TX, Some RADIO_STATE_PREAMBLE]
   \<and> map_option state (fst (host 4 first_transmission
          (RADIO_Init (Some ((example_inst RADIO_STATE_FRAME 77)\<lparr>nextAR := 999\<rparr>)) (Some 1),
           quiet_world 0)))
     \<noteq> Some RADIO_STATE_WAIT_AR
   \<and> reg_writes (bus (snd (host 4 first_transmission
          (RADIO_Init (Some ((example_inst RADIO_STATE_FRAME 77)\<lparr>nextAR := 999\<rparr>)) (Some 1),
           quiet_world 0))))
     = config_writes @ [(ADDR_PWRMODE, PWRMODE_SYNTHTX), (ADDR_PWRMODE, PWRMODE_FULLTX)]"
proof -
  let ?s0 = "(RADIO_Init (Some ((example_inst RADIO_STATE_FRAME 77)\<lparr>nextAR := 999\<rparr>)) (Some 1),
      quiet_world 0)"
  have states: "map (\<lambda>n. map_option state (fst (host 4 (take n first_transmission) ?s0)))
      [0, 1, 2, 3, 4, 5]
    = [Some RADIO_STATE_CONFIGURE, Some RADIO_STATE_WAIT_CONF, Some RADIO_STATE_IDLE,
       Some RADIO_STATE_START_TX, Some RADIO_STATE_WAIT_TX, Some RADIO_STATE_PREAMBLE]"
    by (simp add: first_transmission_def RADIO_Init_def example_inst_def quiet_world_def
        RADIO_Process_def RADIO_Process_switch_def RADIO_SetFrame_def memcpy_def
        HAL_GetTick_def SetReg_eq Let_def DumpRegister_def)
  have never: "map_option state (fst (host 4 first_transmission ?s0)) \<noteq> Some RADIO_STATE_WAIT_AR"
    by (rule Init_never_ranges)
  have writes: "reg_writes (bus (snd (host 4 first_transmission ?s0)))
      = config_writes @ [(ADDR_PWRMODE, PWRMODE_SYNTHTX), (ADDR_PWRMODE, PWRMODE_FULLTX)]"
    by (simp add: first_transmission_def RADIO_Init_def example_inst_def quiet_world_def
        RADIO_Process_def RADIO_Process_switch_def RADIO_SetFrame_def memcpy_def
        HAL_GetTick_def SetReg_eq GetReg_eq Let_def DumpRegister_def DumpRegister_loop.simps
        reg_writes_def write_txn_def read_txn_def config_writes_def)
  from states never writes show ?thesis
    by (intro conjI)
qed

section \<open>A whole transmission\<close>

















end
